theory Spec2Isabelle
  imports Main "HOL-Library.Sublist" "HOL-Library.Word"
begin

section \<open>Go values shared by the packages\<close>

text \<open>
  Go strings and byte slices are byte sequences: both are \<open>string\<close> here. An \<open>error\<close>
  value is represented by its message; \<open>nil\<close> is \<open>None\<close>. A function call either
  returns or panics.
\<close>

type_synonym error = string

datatype 'a outcome = Returns 'a | Panics string

text \<open>
  Go's \<open>int\<close> is the 64-bit signed integer of the amd64 build (the Dockerfile builds
  with golang:1.21 on Debian). It is an \<open>int\<close> here, and \<open>int_range\<close> says what the
  type can hold.
\<close>

definition int_range :: "int \<Rightarrow> bool" where
  "int_range n \<longleftrightarrow> - (2 ^ 63) \<le> n \<and> n < 2 ^ 63"

subsection \<open>float64\<close>

text \<open>
  A finite float64 is \<open>mantissa * 2 ^ exponent\<close>. \<open>float64_of_int n\<close> is the float64
  nearest to the integer \<open>n\<close> (53 significant bits, ties to even): what
  \<open>encoding/json\<close> reads back from the decimal text of \<open>n\<close>. \<open>int_of_float64\<close>
  is Go's conversion \<open>int(f)\<close>: the fraction is discarded (truncation towards zero);
  for a value that does not fit the result is implementation-specific, and the amd64
  instruction gives the smallest int64.
\<close>

datatype float64 = Float64 (mantissa: int) (exponent: int)

fun bit_length :: "nat \<Rightarrow> nat" where
  "bit_length n = (if n = 0 then 0 else Suc (bit_length (n div 2)))"

declare bit_length.simps [simp del]

definition float64_of_int :: "int \<Rightarrow> float64" where
  "float64_of_int n =
     (let a = nat \<bar>n\<bar>;
          s = bit_length a - 53;
          q = a div 2 ^ s;
          r = a mod 2 ^ s;
          m = (if 2 ^ s < 2 * r \<or> (2 * r = 2 ^ s \<and> odd q) then q + 1 else q)
      in Float64 (sgn n * int m) (int s))"

definition float64_exact :: "int \<Rightarrow> bool" where
  "float64_exact n \<longleftrightarrow> nat \<bar>n\<bar> mod 2 ^ (bit_length (nat \<bar>n\<bar>) - 53) = 0"

definition truncate_float64 :: "float64 \<Rightarrow> int" where
  "truncate_float64 f =
     (if 0 \<le> exponent f then mantissa f * 2 ^ nat (exponent f)
      else sgn (mantissa f) * (\<bar>mantissa f\<bar> div 2 ^ nat (- exponent f)))"

definition int_of_float64 :: "float64 \<Rightarrow> int" where
  "int_of_float64 f =
     (let t = truncate_float64 f in if int_range t then t else - (2 ^ 63))"

definition is_integral :: "float64 \<Rightarrow> bool" where
  "is_integral f \<longleftrightarrow> 0 \<le> exponent f \<or> \<bar>mantissa f\<bar> mod 2 ^ nat (- exponent f) = 0"

section \<open>pkg/db: the user row\<close>

record User =
  ID :: int
  Username :: string
  Password :: string

definition zero_User :: User where
  "zero_User = \<lparr>ID = 0, Username = [], Password = []\<rparr>"

section \<open>The gin request context\<close>

text \<open>
  \<open>gin.H{"error": msg}\<close> is a one-entry association list. A context holds the request
  headers and query parameters, the responses written so far in order (a JSON body with
  its status, or a file served with status 200: its path and bytes), the abort flag set
  by \<open>c.Abort()\<close> and the values stored by \<open>c.Set\<close>. Logging and the
  Prometheus counters change no result and are left out, except that
  \<open>ErrorHandler\<close> calls \<open>err.Error()\<close> and so panics on a nil error.
\<close>

type_synonym H = "(string \<times> string) list"

datatype ctx_value = IntValue int | StringValue string

datatype response = JSONResponse nat H | FileResponse string string

record gin_Context =
  headers :: "(string \<times> string) list"
  query :: "(string \<times> string) list"
  responses :: "response list"
  aborted :: bool
  stored :: "(string \<times> ctx_value) list"

definition GetHeader :: "gin_Context \<Rightarrow> string \<Rightarrow> string" where
  "GetHeader c k = (case map_of (headers c) k of None \<Rightarrow> [] | Some v \<Rightarrow> v)"

definition Query :: "gin_Context \<Rightarrow> string \<Rightarrow> string" where
  "Query c k = (case map_of (query c) k of None \<Rightarrow> [] | Some v \<Rightarrow> v)"

definition JSON :: "nat \<Rightarrow> H \<Rightarrow> gin_Context \<Rightarrow> gin_Context" where
  "JSON code obj c = c\<lparr>responses := responses c @ [JSONResponse code obj]\<rparr>"

definition Abort :: "gin_Context \<Rightarrow> gin_Context" where
  "Abort c = c\<lparr>aborted := True\<rparr>"

definition Set_value :: "string \<Rightarrow> ctx_value \<Rightarrow> gin_Context \<Rightarrow> gin_Context" where
  "Set_value k v c = c\<lparr>stored := (k, v) # stored c\<rparr>"

definition ErrorHandler :: "error option \<Rightarrow> unit outcome" where
  "ErrorHandler err =
     (case err of None \<Rightarrow> Panics ''nil pointer dereference'' | Some e \<Rightarrow> Returns ())"

definition and_then :: "'a outcome \<Rightarrow> ('a \<Rightarrow> 'b outcome) \<Rightarrow> 'b outcome" where
  "and_then x f = (case x of Panics p \<Rightarrow> Panics p | Returns v \<Rightarrow> f v)"

section \<open>path/filepath and strings, as the picture handler uses them\<close>

text \<open>
  \<open>strings.Split\<close> with a one-byte separator, \<open>strings.Join\<close>, and the lexical
  \<open>filepath.Clean\<close> and \<open>filepath.Join\<close> of a Unix build: empty and \<open>.\<close> elements
  are dropped, \<open>..\<close> removes the element before it, cannot climb above the root of a
  rooted path and is kept at the start of a relative one; the empty result is \<open>.\<close>.
\<close>

fun Split :: "string \<Rightarrow> char \<Rightarrow> string list" where
  "Split [] sep = [[]]"
| "Split (c # cs) sep =
     (if c = sep then [] # Split cs sep
      else (case Split cs sep of [] \<Rightarrow> [[c]] | p # ps \<Rightarrow> (c # p) # ps))"

fun strings_Join :: "string list \<Rightarrow> string \<Rightarrow> string" where
  "strings_Join [] sep = []"
| "strings_Join [x] sep = x"
| "strings_Join (x # y # ys) sep = x @ sep @ strings_Join (y # ys) sep"

definition clean_element :: "bool \<Rightarrow> string list \<Rightarrow> string \<Rightarrow> string list" where
  "clean_element rooted kept e =
     (if e = [] \<or> e = ''.'' then kept
      else if e = ''..'' then
        (case kept of
           [] \<Rightarrow> if rooted then [] else [''..'']
         | e' # rest \<Rightarrow> if e' = ''..'' then ''..'' # kept else rest)
      else e # kept)"

definition Clean :: "string \<Rightarrow> string" where
  "Clean p =
     (if p = [] then ''.''
      else
        let rooted = (hd p = CHR ''/'');
            kept = rev (foldl (clean_element rooted) [] (Split p CHR ''/''));
            out = strings_Join kept ''/''
        in if rooted then ''/'' @ out else if out = [] then ''.'' else out)"

fun filepath_Join :: "string list \<Rightarrow> string" where
  "filepath_Join [] = []"
| "filepath_Join (e # es) =
     (if e \<noteq> [] then Clean (strings_Join (e # es) ''/'') else filepath_Join es)"

section \<open>fmt, encoding/base64 and argon2, as pkg/crypto uses them\<close>

subsection \<open>Decimal text: the verb \<open>%d\<close> of Sprintf\<close>

definition digit_char :: "nat \<Rightarrow> char" where
  "digit_char d = char_of (48 + d)"

fun decimal :: "nat \<Rightarrow> string" where
  "decimal n = (if n < 10 then [digit_char n] else decimal (n div 10) @ [digit_char (n mod 10)])"

declare decimal.simps [simp del]

subsection \<open>Scanning: \<open>fmt.Sscanf\<close> with literal text and the verb \<open>%d\<close>\<close>

text \<open>
  Literal text of the format must match the input byte by byte. Before a number the
  scanner skips white space (a newline is an error), reads an optional sign when the
  operand is signed, then at least one decimal digit and all digits that follow; the
  value must fit the operand. Input after the last operand is ignored.
  \<open>space_width\<close> is the length in bytes of a white-space rune at the head of the input
  (0 when there is none), for the runes of the scanner's table in UTF-8.
\<close>

definition is_digit :: "char \<Rightarrow> bool" where
  "is_digit c \<longleftrightarrow> 48 \<le> (of_char c :: nat) \<and> (of_char c :: nat) \<le> 57"

definition digits_value :: "string \<Rightarrow> nat" where
  "digits_value tok = foldl (\<lambda>acc c. 10 * acc + (of_char c - 48)) 0 tok"

definition space_width :: "string \<Rightarrow> nat" where
  "space_width inp =
     (let b = map of_char inp :: nat list in
      if b = [] then 0
      else if b ! 0 \<in> set [9, 11, 12, 13, 32] then 1
      else if take 2 b \<in> set [[194, 133], [194, 160]] then 2
      else if take 3 b \<in> set [[225, 154, 128], [226, 128, 168], [226, 128, 169],
                               [226, 128, 175], [226, 129, 159], [227, 128, 128]] then 3
      else if take 2 b = [226, 128] \<and> 2 < length b \<and> 128 \<le> b ! 2 \<and> b ! 2 \<le> 138 then 3
      else 0)"

fun skip_space :: "nat \<Rightarrow> string \<Rightarrow> error + string" where
  "skip_space k [] = Inr []"
| "skip_space (Suc k) (c # cs) = skip_space k cs"
| "skip_space 0 (c # cs) =
     (if c = CHR 0x0A then Inl ''unexpected newline''
      else if space_width (c # cs) = 0 then Inr (c # cs)
      else skip_space (space_width (c # cs) - 1) cs)"

definition SkipSpace :: "string \<Rightarrow> error + string" where
  "SkipSpace inp = skip_space 0 inp"

fun literal :: "string \<Rightarrow> string \<Rightarrow> error + string" where
  "literal [] inp = Inr inp"
| "literal (f # fs) [] = Inl ''unexpected EOF''"
| "literal (f # fs) (c # cs) =
     (if f = c then literal fs cs else Inl ''input does not match format'')"

definition scanNumber :: "string \<Rightarrow> error + (string \<times> string)" where
  "scanNumber inp =
     (if inp = [] then Inl ''unexpected EOF''
      else if \<not> is_digit (hd inp) then Inl ''expected integer''
      else Inr (takeWhile is_digit inp, dropWhile is_digit inp))"

definition scanUint :: "nat \<Rightarrow> string \<Rightarrow> error + (nat \<times> string)" where
  "scanUint bitSize inp =
     (case SkipSpace inp of
        Inl e \<Rightarrow> Inl e
      | Inr inp1 \<Rightarrow>
          if inp1 = [] then Inl ''unexpected EOF''
          else
            (case scanNumber inp1 of
               Inl e \<Rightarrow> Inl e
             | Inr (tok, rest) \<Rightarrow>
                 if digits_value tok < 2 ^ bitSize then Inr (digits_value tok, rest)
                 else Inl ''unsigned integer overflow''))"

definition scanInt :: "string \<Rightarrow> error + (int \<times> string)" where
  "scanInt inp =
     (case SkipSpace inp of
        Inl e \<Rightarrow> Inl e
      | Inr inp1 \<Rightarrow>
          if inp1 = [] then Inl ''unexpected EOF''
          else
            let negative = (hd inp1 = CHR ''-'');
                inp2 = (if hd inp1 = CHR ''+'' \<or> hd inp1 = CHR ''-'' then tl inp1 else inp1)
            in (case scanNumber inp2 of
                  Inl e \<Rightarrow> Inl e
                | Inr (tok, rest) \<Rightarrow>
                    let i = (if negative then - int (digits_value tok) else int (digits_value tok))
                    in if int_range i then Inr (i, rest) else Inl ''integer overflow''))"

text \<open>\<open>fmt.Sscanf(str, "v=%d", &version)\<close> with an \<open>int\<close> operand.\<close>

definition Sscanf_version :: "string \<Rightarrow> error + int" where
  "Sscanf_version str =
     (case literal ''v='' str of
        Inl e \<Rightarrow> Inl e
      | Inr r \<Rightarrow> (case scanInt r of Inl e \<Rightarrow> Inl e | Inr (version, r') \<Rightarrow> Inr version))"

text \<open>
  \<open>fmt.Sscanf(str, "m=%d,t=%d,p=%d", &Memory, &Time, &Threads)\<close> with operands of type
  uint32, uint32 and uint8.
\<close>

definition Sscanf_params :: "string \<Rightarrow> error + (32 word \<times> 32 word \<times> 8 word)" where
  "Sscanf_params str =
     (case literal ''m='' str of
        Inl e \<Rightarrow> Inl e
      | Inr r1 \<Rightarrow>
          (case scanUint 32 r1 of
             Inl e \<Rightarrow> Inl e
           | Inr (m, r2) \<Rightarrow>
               (case literal '',t='' r2 of
                  Inl e \<Rightarrow> Inl e
                | Inr r3 \<Rightarrow>
                    (case scanUint 32 r3 of
                       Inl e \<Rightarrow> Inl e
                     | Inr (t, r4) \<Rightarrow>
                         (case literal '',p='' r4 of
                            Inl e \<Rightarrow> Inl e
                          | Inr r5 \<Rightarrow>
                              (case scanUint 8 r5 of
                                 Inl e \<Rightarrow> Inl e
                               | Inr (p, r6) \<Rightarrow> Inr (of_nat m, of_nat t, of_nat p)))))))"

subsection \<open>\<open>base64.RawStdEncoding\<close>\<close>

text \<open>
  The standard alphabet without padding. Encoding writes four characters for three bytes
  and two or three characters for a last group of one or two bytes. Decoding skips
  carriage returns and newlines, fails on any other byte outside the alphabet and on a
  last group of one character, and does not check the unused bits of a last group.
\<close>

definition encodeStd :: string where
  "encodeStd = ''ABCDEFGHIJKLMNOPQRSTUVWXYZabcdefghijklmnopqrstuvwxyz0123456789+/''"

definition sextet_char :: "nat \<Rightarrow> char" where
  "sextet_char n = encodeStd ! n"

fun EncodeToString :: "string \<Rightarrow> string" where
  "EncodeToString (a # b # c # rest) =
     (let x = of_char a :: nat; y = of_char b :: nat; z = of_char c :: nat
      in sextet_char (x div 4) # sextet_char ((x mod 4) * 16 + y div 16) #
         sextet_char ((y mod 16) * 4 + z div 64) # sextet_char (z mod 64) #
         EncodeToString rest)"
| "EncodeToString [a, b] =
     (let x = of_char a :: nat; y = of_char b :: nat
      in [sextet_char (x div 4), sextet_char ((x mod 4) * 16 + y div 16),
          sextet_char ((y mod 16) * 4)])"
| "EncodeToString [a] =
     (let x = of_char a :: nat in [sextet_char (x div 4), sextet_char ((x mod 4) * 16)])"
| "EncodeToString [] = []"

fun index_of :: "char \<Rightarrow> string \<Rightarrow> nat option" where
  "index_of c [] = None"
| "index_of c (x # xs) = (if c = x then Some 0 else map_option Suc (index_of c xs))"

definition decodeMap :: "char \<Rightarrow> nat option" where
  "decodeMap c = index_of c encodeStd"

fun sextets :: "string \<Rightarrow> nat list option" where
  "sextets [] = Some []"
| "sextets (c # cs) =
     (if c = CHR 0x0D \<or> c = CHR 0x0A then sextets cs
      else (case decodeMap c of
              None \<Rightarrow> None
            | Some v \<Rightarrow> map_option ((#) v) (sextets cs)))"

fun decode_quanta :: "nat list \<Rightarrow> string option" where
  "decode_quanta (a # b # c # d # rest) =
     map_option
       (\<lambda>r. char_of (a * 4 + b div 16) # char_of ((b mod 16) * 16 + c div 4) #
            char_of ((c mod 4) * 64 + d) # r)
       (decode_quanta rest)"
| "decode_quanta [a, b, c] =
     Some [char_of (a * 4 + b div 16), char_of ((b mod 16) * 16 + c div 4)]"
| "decode_quanta [a, b] = Some [char_of (a * 4 + b div 16)]"
| "decode_quanta [a] = None"
| "decode_quanta [] = Some []"

definition DecodeString :: "string \<Rightarrow> string option" where
  "DecodeString s = (case sextets s of None \<Rightarrow> None | Some vs \<Rightarrow> decode_quanta vs)"

subsection \<open>\<open>argon2.IDKey\<close>\<close>

text \<open>
  The Argon2id function itself is a parameter \<open>kdf\<close> (password, salt, time, memory,
  threads, key length). The package panics when the number of passes or the
  parallelism is below one, and when the key length is 0: it then asks BLAKE2b for a
  hash of size 0, gets none and writes to it. \<open>argon2.Version\<close> is 0x13.
\<close>

type_synonym kdf = "string \<Rightarrow> string \<Rightarrow> 32 word \<Rightarrow> 32 word \<Rightarrow> 8 word \<Rightarrow> 32 word \<Rightarrow> string"

definition IDKey :: "kdf \<Rightarrow> string \<Rightarrow> string \<Rightarrow> 32 word \<Rightarrow> 32 word \<Rightarrow> 8 word \<Rightarrow> 32 word \<Rightarrow> string outcome" where
  "IDKey f password salt time memory threads keyLen =
     (if time < 1 then Panics ''argon2: number of rounds too small''
      else if threads < 1 then Panics ''argon2: parallelism degree too low''
      else if keyLen = 0 then Panics ''nil pointer dereference''
      else Returns (f password salt time memory threads keyLen))"

definition argon2_Version :: nat where
  "argon2_Version = 19"

section \<open>pkg/crypto: Argon2\<close>

record Argon2Config =
  Time :: "32 word"
  Memory :: "32 word"
  Threads :: "8 word"
  KeyLen :: "32 word"

text \<open>
  The text \<open>Sprintf\<close> writes for the format
  \<open>$argon2id$v=%d$m=%d,t=%d,p=%d$%s$%s\<close>, from the version, the three cost
  parameters, the salt and the digest.
\<close>

definition encoded_hash :: "nat \<Rightarrow> 32 word \<Rightarrow> 32 word \<Rightarrow> 8 word \<Rightarrow> string \<Rightarrow> string \<Rightarrow> string" where
  "encoded_hash v m t p salt digest =
     ''$argon2id$v='' @ decimal v @ ''$m='' @ decimal (unat m) @ '',t='' @ decimal (unat t) @
     '',p='' @ decimal (unat p) @ ''$'' @ EncodeToString salt @ ''$'' @ EncodeToString digest"

text \<open>The same text with any digest field in the last place.\<close>

definition hash_text :: "nat \<Rightarrow> 32 word \<Rightarrow> 32 word \<Rightarrow> 8 word \<Rightarrow> string \<Rightarrow> string \<Rightarrow> string" where
  "hash_text v m t p salt field =
     ''$argon2id$v='' @ decimal v @ ''$m='' @ decimal (unat m) @ '',t='' @ decimal (unat t) @
     '',p='' @ decimal (unat p) @ ''$'' @ EncodeToString salt @ ''$'' @ field"

text \<open>
  \<open>Hash\<close>. \<open>rnd\<close> is what \<open>rand.Read\<close> does with the 16-byte buffer: an error, or
  the bytes it wrote.
\<close>

definition Hash :: "kdf \<Rightarrow> Argon2Config \<Rightarrow> error + string \<Rightarrow> string \<Rightarrow> (string \<times> error option) outcome" where
  "Hash f config rnd password =
     (case rnd of
        Inl err \<Rightarrow> Returns ([], Some (''failed to generate salt: '' @ err))
      | Inr salt \<Rightarrow>
          and_then (IDKey f password salt (Time config) (Memory config) (Threads config) (KeyLen config))
            (\<lambda>hash. Returns (encoded_hash argon2_Version (Memory config) (Time config)
                               (Threads config) salt hash, None)))"

definition Verify :: "kdf \<Rightarrow> string \<Rightarrow> string \<Rightarrow> (bool \<times> error option) outcome" where
  "Verify f hash password =
     (let parts = Split hash CHR ''$'' in
      if length parts \<noteq> 6 then Returns (False, Some ''invalid hash format'')
      else
        (case Sscanf_version (parts ! 2) of
           Inl err \<Rightarrow> Returns (False, Some (''failed to parse version: '' @ err))
         | Inr version \<Rightarrow>
             (case Sscanf_params (parts ! 3) of
                Inl err \<Rightarrow> Returns (False, Some (''failed to parse hash: '' @ err))
              | Inr (memory, time, threads) \<Rightarrow>
                  (case DecodeString (parts ! 4) of
                     None \<Rightarrow> Returns (False, Some ''failed to decode salt: illegal base64 data'')
                   | Some salt \<Rightarrow>
                       let keyLen = (of_nat (length (parts ! 5) * 3 div 4) :: 32 word) in
                       and_then (IDKey f password salt time memory threads keyLen)
                         (\<lambda>newHash. Returns (EncodeToString newHash = parts ! 5, None))))))"

section \<open>The jwt-go package, as the handlers use it\<close>

text \<open>
  A decoded token has the \<open>alg\<close> entry of its header, its claims and its signature.
  A claim value is what \<open>encoding/json\<close> decodes into an interface value: every JSON
  number is a float64. The compact text of a token (base64url of the JSON segments,
  joined by dots) belongs to the library: \<open>encode\<close> and \<open>decode\<close> of \<open>jwt_package\<close>
  stand for it, \<open>decode\<close> giving \<open>None\<close> for a text that is not three decodable
  segments. HMAC is symbolic: the tag records the hash, the key and the signed content,
  so a tag verifies exactly under the key and content it was made from.
  \<open>TimeFunc\<close> is the package's clock, in Unix seconds.
\<close>

datatype json = JNumber float64 | JString string | JBool bool | JNull
  | JArray "json list" | JObject "(string \<times> json) list"

type_synonym MapClaims = "(string \<times> json) list"

datatype hash_alg = SHA256 | SHA384 | SHA512

datatype signing_method = SigningMethodHMAC hash_alg | SigningMethodOther string

datatype signature = HMAC hash_alg string "string option \<times> MapClaims" | Opaque string

record Token =
  Header_alg :: "string option"
  Claims :: MapClaims
  Signature :: signature
  Valid :: bool

record jwt_package =
  encode :: "Token \<Rightarrow> string"
  decode :: "string \<Rightarrow> Token option"
  TimeFunc :: int

text \<open>A JSON object decoded into a Go map keeps the last value of a repeated key.\<close>

definition claim :: "MapClaims \<Rightarrow> string \<Rightarrow> json option" where
  "claim cs k = map_of (rev cs) k"

definition GetSigningMethod :: "string \<Rightarrow> signing_method option" where
  "GetSigningMethod a =
     (if a = ''HS256'' then Some (SigningMethodHMAC SHA256)
      else if a = ''HS384'' then Some (SigningMethodHMAC SHA384)
      else if a = ''HS512'' then Some (SigningMethodHMAC SHA512)
      else if a \<in> set [''RS256'', ''RS384'', ''RS512'', ''PS256'', ''PS384'', ''PS512'',
                        ''ES256'', ''ES384'', ''ES512'', ''none'']
      then Some (SigningMethodOther a)
      else None)"

definition SigningString :: "Token \<Rightarrow> string option \<times> MapClaims" where
  "SigningString t = (Header_alg t, Claims t)"

definition Method_Sign :: "signing_method \<Rightarrow> string option \<times> MapClaims \<Rightarrow> string \<Rightarrow> error + signature" where
  "Method_Sign m content key =
     (case m of
        SigningMethodHMAC h \<Rightarrow> Inr (HMAC h key content)
      | SigningMethodOther a \<Rightarrow> Inl ''key is of invalid type'')"

definition Method_Verify :: "signing_method \<Rightarrow> string option \<times> MapClaims \<Rightarrow> signature \<Rightarrow> string \<Rightarrow> bool" where
  "Method_Verify m content sig key =
     (case m of
        SigningMethodHMAC h \<Rightarrow> sig = HMAC h key content
      | SigningMethodOther a \<Rightarrow> False)"

text \<open>
  \<open>MapClaims.Valid\<close>: the registered claims exp, iat and nbf are compared with the clock
  when they are numbers; a missing one (or the value 0) is not checked.
\<close>

definition numeric_date :: "MapClaims \<Rightarrow> string \<Rightarrow> int" where
  "numeric_date cs k = (case claim cs k of Some (JNumber f) \<Rightarrow> int_of_float64 f | _ \<Rightarrow> 0)"

definition MapClaims_Valid :: "int \<Rightarrow> MapClaims \<Rightarrow> bool" where
  "MapClaims_Valid now cs \<longleftrightarrow>
     (numeric_date cs ''exp'' = 0 \<or> now \<le> numeric_date cs ''exp'') \<and>
     (numeric_date cs ''iat'' = 0 \<or> numeric_date cs ''iat'' \<le> now) \<and>
     (numeric_date cs ''nbf'' = 0 \<or> numeric_date cs ''nbf'' \<le> now)"

text \<open>\<open>jwt.New(method)\<close> with its empty claims, and \<open>token.SignedString(key)\<close>.\<close>

definition jwt_New :: "string \<Rightarrow> Token" where
  "jwt_New a = \<lparr>Header_alg = Some a, Claims = [], Signature = Opaque [], Valid = False\<rparr>"

definition SignedString :: "jwt_package \<Rightarrow> Token \<Rightarrow> string \<Rightarrow> error + string" where
  "SignedString lib t key =
     (case Header_alg t of
        None \<Rightarrow> Inl ''signing method (alg) is unspecified''
      | Some a \<Rightarrow>
          (case GetSigningMethod a of
             None \<Rightarrow> Inl ''signing method (alg) is unavailable''
           | Some m \<Rightarrow>
               (case Method_Sign m (SigningString t) key of
                  Inl e \<Rightarrow> Inl e
                | Inr sig \<Rightarrow> Inr (encode lib (t\<lparr>Signature := sig\<rparr>)))))"

text \<open>
  \<open>jwt.Parse(tokenString, keyFunc)\<close>: decode the segments, look the method up, ask the
  callback for the key, validate the claims and verify the signature.
\<close>

definition jwt_Parse :: "jwt_package \<Rightarrow> string \<Rightarrow> (signing_method \<Rightarrow> error + string) \<Rightarrow> error + Token" where
  "jwt_Parse lib tokenString keyFunc =
     (case decode lib tokenString of
        None \<Rightarrow> Inl ''token is malformed''
      | Some t \<Rightarrow>
          (case Header_alg t of
             None \<Rightarrow> Inl ''signing method (alg) is unspecified''
           | Some a \<Rightarrow>
               (case GetSigningMethod a of
                  None \<Rightarrow> Inl ''signing method (alg) is unavailable''
                | Some m \<Rightarrow>
                    (case keyFunc m of
                       Inl e \<Rightarrow> Inl e
                     | Inr key \<Rightarrow>
                         if \<not> MapClaims_Valid (TimeFunc lib) (Claims t) then Inl ''claims are invalid''
                         else if \<not> Method_Verify m (SigningString t) (Signature t) key
                         then Inl ''signature is invalid''
                         else Inr (t\<lparr>Valid := True\<rparr>)))))"

section \<open>internal/auth and internal/server: tokens\<close>

record AuthService =
  argon :: Argon2Config
  apiKey :: string
  jwtKey :: string

definition unauthorized :: "gin_Context \<Rightarrow> (User \<times> bool) \<times> gin_Context" where
  "unauthorized c = ((zero_User, False), Abort (JSON 401 [(''error'', ''Unauthorized'')] c))"

text \<open>
  \<open>generateAndSendToken\<close> (internal/auth/helpers.go). The claims map is written as a
  JSON object with its keys in sorted order; the integer id is written in decimal, which
  a reader of the token sees as \<open>float64_of_int\<close> of it.
\<close>

definition issue_claims :: "User \<Rightarrow> MapClaims" where
  "issue_claims user =
     [(''user_id'', JNumber (float64_of_int (ID user))), (''username'', JString (Username user))]"

definition generateAndSendToken :: "jwt_package \<Rightarrow> AuthService \<Rightarrow> User \<Rightarrow> error + string" where
  "generateAndSendToken lib svc user =
     (let token = jwt_New ''HS256'';
          token = token\<lparr>Claims := issue_claims user\<rparr>
      in (case SignedString lib token (jwtKey svc) of
            Inl err \<Rightarrow> Inl err
          | Inr tokenString \<Rightarrow> Inr tokenString))"

text \<open>
  \<open>validateToken\<close>: internal/auth/helpers.go and internal/server/helpers.go hold the
  same body, one on \<open>AuthService\<close> and one on \<open>Api\<close>; the key is passed directly.
\<close>

definition keyFunc :: "string \<Rightarrow> signing_method \<Rightarrow> error + string" where
  "keyFunc key m =
     (case m of
        SigningMethodHMAC h \<Rightarrow> Inr key
      | SigningMethodOther a \<Rightarrow> Inl ''unexpected signing method'')"

definition validateToken :: "jwt_package \<Rightarrow> string \<Rightarrow> string \<Rightarrow> gin_Context \<Rightarrow> (User \<times> bool) \<times> gin_Context" where
  "validateToken lib key tokenString c =
     (case jwt_Parse lib tokenString (keyFunc key) of
        Inl err \<Rightarrow> unauthorized c
      | Inr token \<Rightarrow>
          if \<not> Valid token then unauthorized c
          else
            (case claim (Claims token) ''user_id'' of
               Some (JNumber userID) \<Rightarrow>
                 (case claim (Claims token) ''username'' of
                    Some (JString username) \<Rightarrow>
                      ((\<lparr>ID = int_of_float64 userID, Username = username, Password = []\<rparr>, True), c)
                  | _ \<Rightarrow> unauthorized c)
             | _ \<Rightarrow> unauthorized c))"

text \<open>
  The token \<open>generateAndSendToken\<close> hands to the encoder: the HS256 header, the two
  claims and the tag under the server's key.
\<close>

definition issued_token :: "string \<Rightarrow> User \<Rightarrow> Token" where
  "issued_token key user =
     \<lparr>Header_alg = Some ''HS256'', Claims = issue_claims user,
      Signature = HMAC SHA256 key (Some ''HS256'', issue_claims user), Valid = False\<rparr>"

text \<open>\<open>AuthMiddleware\<close> (internal/server); \<open>next\<close> is the rest of the handler chain.\<close>

record Api =
  listenAddr :: string
  Api_jwtKey :: string
  prometheusKey :: string
  Api_apiKey :: string

definition AuthMiddleware :: "jwt_package \<Rightarrow> Api \<Rightarrow> (gin_Context \<Rightarrow> gin_Context) \<Rightarrow> gin_Context \<Rightarrow> gin_Context" where
  "AuthMiddleware lib a next c =
     (let authHeader = GetHeader c ''Authorization'' in
      if authHeader = [] then
        Abort (JSON 401 [(''error'', ''Authorization header is missing'')] c)
      else if \<not> prefix ''Bearer '' authHeader then
        Abort (JSON 401 [(''error'', ''Authorization header must start with Bearer'')] c)
      else
        let jwtToken = drop (length ''Bearer '') authHeader in
        if jwtToken = [] then
          Abort (JSON 401 [(''error'', ''Token is missing'')] c)
        else
          (case validateToken lib (Api_jwtKey a) jwtToken c of
             ((user, ok), c') \<Rightarrow>
               if \<not> ok then c'
               else next (Set_value ''username'' (StringValue (Username user))
                           (Set_value ''user_id'' (IntValue (ID user)) c'))))"

text \<open>\<open>Refresh\<close> (internal/auth). Every rejection goes through \<open>ErrorHandler\<close> with a nil error.\<close>

definition Refresh :: "jwt_package \<Rightarrow> AuthService \<Rightarrow> gin_Context \<Rightarrow> gin_Context outcome" where
  "Refresh lib svc c =
     (let authHeader = GetHeader c ''Authorization'' in
      if authHeader = [] then
        and_then (ErrorHandler None)
          (\<lambda>_. Returns (JSON 401 [(''error'', ''Authorization header is missing'')] c))
      else if \<not> prefix ''Bearer '' authHeader then
        and_then (ErrorHandler None)
          (\<lambda>_. Returns (JSON 401 [(''error'', ''Authorization header must start with Bearer'')] c))
      else
        let jwtToken = drop (length ''Bearer '') authHeader in
        if jwtToken = [] then
          and_then (ErrorHandler None)
            (\<lambda>_. Returns (JSON 401 [(''error'', ''Token is missing'')] c))
        else
          (case validateToken lib (jwtKey svc) jwtToken c of
             ((user, valid), c') \<Rightarrow>
               if \<not> valid then
                 and_then (ErrorHandler None)
                   (\<lambda>_. Returns (JSON 401 [(''error'', ''Unauthorized'')] c'))
               else
                 let token = jwt_New ''HS256'';
                     token = token\<lparr>Claims := issue_claims user\<rparr>
                 in (case SignedString lib token (jwtKey svc) of
                       Inl err \<Rightarrow> Returns (JSON 401 [(''error'', ''failed to sign token'')] c')
                     | Inr tokenString \<Rightarrow> Returns (JSON 200 [(''token'', tokenString)] c'))))"

section \<open>internal/pictures: GetPicture\<close>

text \<open>
  The constants \<open>anniversaryDay\<close>, \<open>valentineDay\<close> and \<open>valentineMonth\<close> are declared
  in a file that is not part of the sources at hand: they are fields of
  \<open>pictures_constants\<close>. \<open>Now\<close> is the local date \<open>time.Now()\<close> reports. The file
  system maps a path to the bytes of the file there; \<open>os.Stat\<close> reports that the file
  does not exist exactly where the map has no entry.
\<close>

record pictures_constants =
  anniversaryDay :: int
  valentineDay :: int
  valentineMonth :: int

record time_Time =
  Day :: int
  Month :: int

record PicturesService =
  basePath :: string

definition GetPicture :: "pictures_constants \<Rightarrow> PicturesService \<Rightarrow> time_Time \<Rightarrow> (string \<Rightarrow> string option) \<Rightarrow> gin_Context \<Rightarrow> gin_Context outcome" where
  "GetPicture k svc Now fs c =
     (if Day Now \<noteq> anniversaryDay k \<and> (Month Now \<noteq> valentineDay k \<and> Month Now \<noteq> valentineMonth k) then
        Returns (JSON 403 [(''error'', ''access denied'')] c)
      else
        let name = Query c ''name'';
            filePath = filepath_Join [basePath svc, name]
        in if \<not> prefix (basePath svc) filePath then
             and_then (ErrorHandler (Some ''attempt to access a file outside the base path''))
               (\<lambda>_. Returns (JSON 400 [(''error'', ''invalid file path'')] c))
           else
             (case fs filePath of
                None \<Rightarrow>
                  and_then (ErrorHandler (Some ''file does not exist''))
                    (\<lambda>_. Returns (JSON 404 [(''error'', ''picture not found'')] c))
              | Some bytes \<Rightarrow> Returns (c\<lparr>responses := responses c @ [FileResponse filePath bytes]\<rparr>)))"

section \<open>pkg/db: the tables and their statements\<close>

text \<open>
  The database holds the rows of \<open>users\<close> and the \<open>key\<close> column of \<open>keys\<close>, in rowid
  order; neither table has a uniqueness constraint. Whether the driver reports an error
  for a statement is not decided by the program: \<open>faults\<close> lists, for the statements to
  come, whether each one fails (none fails once the list is used up). A new user row
  gets the rowid after the largest one.
\<close>

record SQLiteDB =
  users :: "User list"
  keys :: "string list"
  faults :: "bool list"

definition statement :: "SQLiteDB \<Rightarrow> bool \<times> SQLiteDB" where
  "statement s = (case faults s of [] \<Rightarrow> (False, s) | f # fs \<Rightarrow> (f, s\<lparr>faults := fs\<rparr>))"

definition next_rowid :: "User list \<Rightarrow> int" where
  "next_rowid us = (if us = [] then 1 else Max (set (map ID us)) + 1)"

definition GetUser :: "string \<Rightarrow> SQLiteDB \<Rightarrow> (User \<times> error option) \<times> SQLiteDB" where
  "GetUser username s =
     (case statement s of
        (failed, s1) \<Rightarrow>
          if failed then ((zero_User, Some ''database error''), s1)
          else
            (case filter (\<lambda>u. Username u = username) (users s1) of
               [] \<Rightarrow> ((zero_User, Some ''sql: no rows in result set''), s1)
             | u # rest \<Rightarrow> ((u, None), s1)))"

definition insert_user :: "string \<Rightarrow> string \<Rightarrow> SQLiteDB \<Rightarrow> error option \<times> SQLiteDB" where
  "insert_user username password s =
     (case statement s of
        (failed, s1) \<Rightarrow>
          if failed then (Some ''database error'', s1)
          else (None, s1\<lparr>users := users s1 @
                  [\<lparr>ID = next_rowid (users s1), Username = username, Password = password\<rparr>]\<rparr>))"

definition CreateUser :: "string \<Rightarrow> string \<Rightarrow> SQLiteDB \<Rightarrow> (User option \<times> error option) \<times> SQLiteDB" where
  "CreateUser username password s =
     (case insert_user username password s of
        (err, s1) \<Rightarrow>
          if err \<noteq> None then ((None, err), s1)
          else (case GetUser username s1 of ((u, err'), s2) \<Rightarrow> ((Some u, err'), s2)))"

definition ContainsKey :: "string \<Rightarrow> SQLiteDB \<Rightarrow> (bool \<times> error option) \<times> SQLiteDB" where
  "ContainsKey key s =
     (case statement s of
        (failed, s1) \<Rightarrow>
          if failed then ((False, Some ''database error''), s1)
          else ((0 < length (filter (\<lambda>k. k = key) (keys s1)), None), s1))"

definition DeleteKey :: "string \<Rightarrow> SQLiteDB \<Rightarrow> error option \<times> SQLiteDB" where
  "DeleteKey key s =
     (case statement s of
        (failed, s1) \<Rightarrow>
          if failed then (Some ''database error'', s1)
          else (None, s1\<lparr>keys := filter (\<lambda>k. k \<noteq> key) (keys s1)\<rparr>))"

section \<open>internal/auth: Register\<close>

text \<open>
  \<open>strings.ToLower\<close>. A string of ASCII bytes only has its letters A to Z lowered byte
  by byte. For any other string the result is \<open>strings.Map(unicode.ToLower, s)\<close>, the
  case mapping of the Unicode tables, which is the parameter \<open>mapped\<close>.
\<close>

definition ToLower :: "(string \<Rightarrow> string) \<Rightarrow> string \<Rightarrow> string" where
  "ToLower mapped s =
     (if list_all (\<lambda>c. (of_char c :: nat) < 128) s then
        map (\<lambda>c. if 65 \<le> (of_char c :: nat) \<and> (of_char c :: nat) \<le> 90
                 then char_of (of_char c + 32 :: nat) else c) s
      else mapped s)"

record RegisterRequest =
  Req_Username :: string
  Req_Password :: string
  Key :: string

definition report :: "error option \<Rightarrow> gin_Context \<Rightarrow> gin_Context outcome" where
  "report err c = and_then (ErrorHandler err) (\<lambda>_. Returns c)"

definition internal_error :: "gin_Context \<Rightarrow> gin_Context" where
  "internal_error c = JSON 500 [(''error'', ''internal server error'')] c"

text \<open>
  \<open>Register\<close>. \<open>bound\<close> is the request \<open>ShouldBindJSON\<close> produced, \<open>None\<close> when binding
  failed; \<open>rnd\<close> is handed to \<open>Hash\<close> and \<open>mapped\<close> to \<open>ToLower\<close>. The result is the handler's outcome and the
  database it leaves.
\<close>

definition issue :: "jwt_package \<Rightarrow> AuthService \<Rightarrow> User \<Rightarrow> gin_Context \<Rightarrow> gin_Context outcome" where
  "issue lib svc user c =
     (let token = jwt_New ''HS256'';
          token = token\<lparr>Claims := issue_claims user\<rparr>
      in (case SignedString lib token (jwtKey svc) of
            Inl err \<Rightarrow> report (Some err) (JSON 500 [(''error'', ''failed to generate token'')] c)
          | Inr tokenString \<Rightarrow> Returns (JSON 200 [(''token'', tokenString)] c)))"

definition Register :: "kdf \<Rightarrow> jwt_package \<Rightarrow> (string \<Rightarrow> string) \<Rightarrow> AuthService \<Rightarrow> error + string \<Rightarrow> RegisterRequest option \<Rightarrow> gin_Context \<Rightarrow> SQLiteDB \<Rightarrow> gin_Context outcome \<times> SQLiteDB" where
  "Register f lib mapped svc rnd bound c db =
     (case bound of
        None \<Rightarrow>
          (report (Some ''invalid request body'') (JSON 400 [(''error'', ''invalid request'')] c), db)
      | Some req \<Rightarrow>
          (case ContainsKey (Key req) db of
             ((found, err), db1) \<Rightarrow>
               if err \<noteq> None then (report err (internal_error c), db1)
               else if \<not> found then (Returns (JSON 401 [(''error'', ''invalid key'')] c), db1)
               else
                 let username = ToLower mapped (Req_Username req) in
                 (case GetUser username db1 of
                    ((existing, err), db2) \<Rightarrow>
                      if err = None then
                        (Returns (JSON 409 [(''error'', ''username already exists'')] c), db2)
                      else
                        (case Hash f (argon svc) rnd (Req_Password req) of
                           Panics p \<Rightarrow> (Panics p, db2)
                         | Returns (hash, err) \<Rightarrow>
                             if err \<noteq> None then (report err (internal_error c), db2)
                             else
                               (case CreateUser username hash db2 of
                                  ((created, err), db3) \<Rightarrow>
                                    if err \<noteq> None then (report err (internal_error c), db3)
                                    else
                                      (case DeleteKey (Key req) db3 of
                                         (err, db4) \<Rightarrow>
                                           if err \<noteq> None then (report err (internal_error c), db4)
                                           else
                                             (case created of
                                                None \<Rightarrow> (Panics ''nil pointer dereference'', db4)
                                              | Some user \<Rightarrow> (issue lib svc user c, db4))))))))"

subsection \<open>Two registrations at the same time\<close>

text \<open>
  Each request runs in its own goroutine and the database executes one statement at a
  time: a run of two registrations is an interleaving of their statements. A
  registration is cut at its five statements (ContainsKey, GetUser, the INSERT and the
  GetUser of CreateUser, DeleteKey); \<open>Register_step\<close> runs one registration up to and
  including its next statement.
\<close>

datatype stage =
    Start
  | KeyChecked
  | NameFree
  | Inserted
  | Created User
  | Finished "gin_Context outcome"

definition Register_step :: "kdf \<Rightarrow> jwt_package \<Rightarrow> (string \<Rightarrow> string) \<Rightarrow> AuthService \<Rightarrow> error + string \<Rightarrow> RegisterRequest option \<Rightarrow> gin_Context \<Rightarrow> stage \<Rightarrow> SQLiteDB \<Rightarrow> stage \<times> SQLiteDB" where
  "Register_step f lib mapped svc rnd bound c st db =
     (case bound of
        None \<Rightarrow>
          (case st of
             Finished r \<Rightarrow> (st, db)
           | _ \<Rightarrow> (Finished (report (Some ''invalid request body'')
                               (JSON 400 [(''error'', ''invalid request'')] c)), db))
      | Some req \<Rightarrow>
          (case st of
             Start \<Rightarrow>
               (case ContainsKey (Key req) db of
                  ((found, err), db1) \<Rightarrow>
                    if err \<noteq> None then (Finished (report err (internal_error c)), db1)
                    else if \<not> found then
                      (Finished (Returns (JSON 401 [(''error'', ''invalid key'')] c)), db1)
                    else (KeyChecked, db1))
           | KeyChecked \<Rightarrow>
               (case GetUser (ToLower mapped (Req_Username req)) db of
                  ((existing, err), db2) \<Rightarrow>
                    if err = None then
                      (Finished (Returns (JSON 409 [(''error'', ''username already exists'')] c)), db2)
                    else (NameFree, db2))
           | NameFree \<Rightarrow>
               (case Hash f (argon svc) rnd (Req_Password req) of
                  Panics p \<Rightarrow> (Finished (Panics p), db)
                | Returns (hash, err) \<Rightarrow>
                    if err \<noteq> None then (Finished (report err (internal_error c)), db)
                    else
                      (case insert_user (ToLower mapped (Req_Username req)) hash db of
                         (err, db3) \<Rightarrow>
                           if err \<noteq> None then (Finished (report err (internal_error c)), db3)
                           else (Inserted, db3)))
           | Inserted \<Rightarrow>
               (case GetUser (ToLower mapped (Req_Username req)) db of
                  ((u, err), db3) \<Rightarrow>
                    if err \<noteq> None then (Finished (report err (internal_error c)), db3)
                    else (Created u, db3))
           | Created user \<Rightarrow>
               (case DeleteKey (Key req) db of
                  (err, db4) \<Rightarrow>
                    if err \<noteq> None then (Finished (report err (internal_error c)), db4)
                    else (Finished (issue lib svc user c), db4))
           | Finished r \<Rightarrow> (st, db)))"

record attempt =
  entropy :: "error + string"
  body :: "RegisterRequest option"
  ctx :: gin_Context

text \<open>
  A schedule names, for each statement executed, the registration that executes it:
  \<open>False\<close> for the first, \<open>True\<close> for the second.
\<close>

fun interleave :: "kdf \<Rightarrow> jwt_package \<Rightarrow> (string \<Rightarrow> string) \<Rightarrow> AuthService \<Rightarrow> attempt \<Rightarrow> attempt \<Rightarrow> bool list \<Rightarrow> stage \<times> stage \<times> SQLiteDB \<Rightarrow> stage \<times> stage \<times> SQLiteDB" where
  "interleave f lib mapped svc a b [] state = state"
| "interleave f lib mapped svc a b (second # sched) (sa, sb, db) =
     (if second then
        (case Register_step f lib mapped svc (entropy b) (body b) (ctx b) sb db of
           (sb', db') \<Rightarrow> interleave f lib mapped svc a b sched (sa, sb', db'))
      else
        (case Register_step f lib mapped svc (entropy a) (body a) (ctx a) sa db of
           (sa', db') \<Rightarrow> interleave f lib mapped svc a b sched (sa', sb, db')))"

definition status_of :: "stage \<Rightarrow> nat option" where
  "status_of st =
     (case st of
        Finished (Returns c) \<Rightarrow>
          (case rev (responses c) of
             [] \<Rightarrow> None
           | JSONResponse code obj # earlier \<Rightarrow> Some code
           | FileResponse p b # earlier \<Rightarrow> Some 200)
      | _ \<Rightarrow> None)"

text \<open>
  The fields \<open>Verify\<close> reads before it derives a digest: six fields between dollar
  signs, a version and cost parameters that scan, a salt that decodes.
\<close>

definition well_formed_fields :: "string \<Rightarrow> bool" where
  "well_formed_fields hash \<longleftrightarrow>
     (let parts = Split hash CHR ''$''
      in length parts = 6 \<and> \<not> isl (Sscanf_version (parts ! 2)) \<and>
         \<not> isl (Sscanf_params (parts ! 3)) \<and>
         DecodeString (parts ! 4) \<noteq> None)"

section \<open>Sample values\<close>

text \<open>Concrete requests, tokens and services on which the results below are run.\<close>

definition sample_context :: gin_Context where
  "sample_context = \<lparr>headers = [], query = [], responses = [], aborted = False, stored = []\<rparr>"

definition sample_user :: User where
  "sample_user = \<lparr>ID = 7, Username = ''alice'', Password = ''stored hash''\<rparr>"

definition server_config :: Argon2Config where
  "server_config = \<lparr>Time = 1, Memory = 64 * 1024, Threads = 4, KeyLen = 32\<rparr>"

definition sample_service :: AuthService where
  "sample_service = \<lparr>argon = server_config, apiKey = ''admin key'', jwtKey = ''secret''\<rparr>"

text \<open>A package whose one token text decodes to the given token.\<close>

definition sample_package :: "Token \<Rightarrow> jwt_package" where
  "sample_package t =
     \<lparr>encode = (\<lambda>x. ''header.claims.tag''),
      decode = (\<lambda>s. if s = ''header.claims.tag'' then Some t else None),
      TimeFunc = 0\<rparr>"

text \<open>A token signed with the server's key whose \<open>user_id\<close> is the number \<open>f\<close>.\<close>

definition numbered_token :: "float64 \<Rightarrow> Token" where
  "numbered_token f =
     \<lparr>Header_alg = Some ''HS256'',
      Claims = [(''user_id'', JNumber f), (''username'', JString ''alice'')],
      Signature = HMAC SHA256 ''secret''
        (Some ''HS256'', [(''user_id'', JNumber f), (''username'', JString ''alice'')]),
      Valid = False\<rparr>"

text \<open>A stand-in for Argon2id that returns a digest of the requested length.\<close>

definition sample_kdf :: kdf where
  "sample_kdf password salt time memory threads keyLen =
     take (unat keyLen) (password @ replicate (unat keyLen) (CHR ''x''))"

text \<open>A stand-in for the Unicode case mapping; the sample names are ASCII.\<close>

definition sample_mapping :: "string \<Rightarrow> string" where
  "sample_mapping s = s"

definition alice_attempt :: attempt where
  "alice_attempt =
     \<lparr>entropy = Inr ''0123456789abcdef'',
      body = Some \<lparr>Req_Username = ''Alice'', Req_Password = ''pw1'', Key = ''k1''\<rparr>,
      ctx = sample_context\<rparr>"

definition bob_attempt :: attempt where
  "bob_attempt =
     \<lparr>entropy = Inr ''fedcba9876543210'',
      body = Some \<lparr>Req_Username = ''bob'', Req_Password = ''pw2'', Key = ''k1''\<rparr>,
      ctx = sample_context\<rparr>"

definition one_key_db :: SQLiteDB where
  "one_key_db = \<lparr>users = [], keys = [''k1''], faults = []\<rparr>"

text \<open>
  A path is inside a directory when it is the directory or continues it after a
  separator.
\<close>

definition inside_directory :: "string \<Rightarrow> string \<Rightarrow> bool" where
  "inside_directory dir p \<longleftrightarrow> p = dir \<or> prefix (dir @ ''/'') p"

section \<open>Properties\<close>

subsection \<open>Helper facts about the context\<close>

lemma JSON_eq_iff: "JSON s b c = JSON s' b' c \<longleftrightarrow> s = s' \<and> b = b'"
  by (cases c) (simp add: JSON_def)

subsection \<open>The calendar gate of GetPicture\<close>

text \<open>
  C4 (AccessGate calendar rule). The claim: visibility is granted exactly when the day of
  the month is the anniversary day or the date is February 14; on February 15, with no
  anniversary-day match, the answer is 403. The handler compares the month with
  \<open>valentineDay\<close> and with \<open>valentineMonth\<close> and never compares the day with
  \<open>valentineDay\<close>: with Valentine's day 14 and month 2, on February 15 the handler
  does not answer 403, whatever the anniversary day, the file system and the request.
\<close>

theorem GetPicture_february_15_not_denied:
  "GetPicture \<lparr>anniversaryDay = a, valentineDay = 14, valentineMonth = 2\<rparr> svc
      \<lparr>Day = 15, Month = 2\<rparr> fs c
   \<noteq> Returns (JSON 403 [(''error'', ''access denied'')] c)"
proof -
  have "c\<lparr>responses := responses c @ [FileResponse p b]\<rparr>
        \<noteq> JSON 403 [(''error'', ''access denied'')] c" for p b
    by (cases c) (simp add: JSON_def)
  then show ?thesis
    by (simp add: GetPicture_def Let_def and_then_def ErrorHandler_def JSON_eq_iff
        split: option.splits)
qed

subsection \<open>Bearer extraction\<close>

text \<open>
  The middleware rejects a missing header, a header without the prefix and an empty
  token with 401 and an aborted chain, and hands the rest of an accepted header to
  \<open>validateToken\<close> unchanged.
\<close>

lemma AuthMiddleware_missing_header:
  "GetHeader c ''Authorization'' = [] \<Longrightarrow>
   AuthMiddleware lib a next c = Abort (JSON 401 [(''error'', ''Authorization header is missing'')] c)"
  by (simp add: AuthMiddleware_def)

lemma AuthMiddleware_no_prefix:
  "GetHeader c ''Authorization'' \<noteq> [] \<Longrightarrow> \<not> prefix ''Bearer '' (GetHeader c ''Authorization'') \<Longrightarrow>
   AuthMiddleware lib a next c =
     Abort (JSON 401 [(''error'', ''Authorization header must start with Bearer'')] c)"
  by (simp add: AuthMiddleware_def)

lemma AuthMiddleware_empty_token:
  "GetHeader c ''Authorization'' = ''Bearer '' \<Longrightarrow>
   AuthMiddleware lib a next c = Abort (JSON 401 [(''error'', ''Token is missing'')] c)"
  by (simp add: AuthMiddleware_def)

lemma AuthMiddleware_bearer:
  "GetHeader c ''Authorization'' = ''Bearer '' @ tok \<Longrightarrow> tok \<noteq> [] \<Longrightarrow>
   AuthMiddleware lib a next c =
     (case validateToken lib (Api_jwtKey a) tok c of
        ((user, ok), c') \<Rightarrow>
          if \<not> ok then c'
          else next (Set_value ''username'' (StringValue (Username user))
                      (Set_value ''user_id'' (IntValue (ID user)) c')))"
  by (simp add: AuthMiddleware_def)

text \<open>
  C7 (Bearer extraction). The claim: a missing header, a value without the prefix
  \<open>Bearer \<close> and an empty token after the prefix are each rejected with 401. The
  middleware does so (lemmas above). \<open>Refresh\<close> makes the same three checks, but
  calls \<open>ErrorHandler\<close> with a nil error before it writes the 401, and \<open>ErrorHandler\<close>
  calls \<open>err.Error()\<close>: on each of the three inputs the handler panics and writes no
  401.
\<close>

theorem Refresh_rejections_panic:
  "Refresh lib svc \<lparr>headers = [], query = [], responses = [], aborted = False, stored = []\<rparr>
     = Panics ''nil pointer dereference'' \<and>
   Refresh lib svc \<lparr>headers = [(''Authorization'', ''Basic abc'')], query = [], responses = [],
       aborted = False, stored = []\<rparr>
     = Panics ''nil pointer dereference'' \<and>
   Refresh lib svc \<lparr>headers = [(''Authorization'', ''Bearer '')], query = [], responses = [],
       aborted = False, stored = []\<rparr>
     = Panics ''nil pointer dereference''"
  by (simp add: Refresh_def GetHeader_def and_then_def ErrorHandler_def)

subsection \<open>Tokens\<close>

lemma truncate_float64_of_int:
  assumes "float64_exact n"
  shows "truncate_float64 (float64_of_int n) = n"
proof -
  define a where "a = nat \<bar>n\<bar>"
  define s where "s = bit_length a - 53"
  have r0: "a mod 2 ^ s = 0"
    using assms by (simp add: float64_exact_def a_def s_def)
  then have q: "a div 2 ^ s * 2 ^ s = a"
    by (simp add: mod_0_imp_dvd)
  have f: "float64_of_int n = Float64 (sgn n * int (a div 2 ^ s)) (int s)"
    using r0 by (simp add: float64_of_int_def Let_def a_def [symmetric] s_def [symmetric])
  have "truncate_float64 (float64_of_int n) = sgn n * int (a div 2 ^ s) * 2 ^ s"
    by (simp add: f truncate_float64_def)
  also have "\<dots> = sgn n * int (a div 2 ^ s * 2 ^ s)"
    by simp
  also have "\<dots> = sgn n * int a"
    by (simp only: q)
  also have "\<dots> = n"
    by (simp add: a_def mult_sgn_abs)
  finally show ?thesis .
qed

lemma int_of_float64_of_int:
  "int_range n \<Longrightarrow> float64_exact n \<Longrightarrow> int_of_float64 (float64_of_int n) = n"
  by (simp add: int_of_float64_def truncate_float64_of_int)

lemma SignedString_issued:
  "SignedString lib ((jwt_New ''HS256'')\<lparr>Claims := issue_claims user\<rparr>) key = Inr (encode lib (issued_token key user))"
  by (simp add: SignedString_def jwt_New_def GetSigningMethod_def Method_Sign_def SigningString_def issued_token_def)

lemma claims_valid_issued: "MapClaims_Valid now (issue_claims user)"
  by (simp add: MapClaims_Valid_def numeric_date_def claim_def issue_claims_def)

lemma jwt_Parse_issued:
  assumes "decode lib s = Some (issued_token key user)"
  shows "jwt_Parse lib s (keyFunc key) = Inr ((issued_token key user)\<lparr>Valid := True\<rparr>)"
  using assms claims_valid_issued [of "TimeFunc lib" user]
  by (simp add: jwt_Parse_def issued_token_def GetSigningMethod_def keyFunc_def Method_Verify_def SigningString_def)

text \<open>
  C1 (Token round-trip). For a user whose id is an int that a float64 holds exactly and
  whose name is not empty, \<open>generateAndSendToken\<close> returns the text of the issued
  token, and \<open>validateToken\<close> with the same key, on that text, succeeds with the id
  and the name of the user and writes nothing to the context. The package is required
  to read back the token it wrote.
\<close>

theorem token_round_trip:
  assumes "int_range (ID user)" and "float64_exact (ID user)" and "Username user \<noteq> []"
    and "decode lib (encode lib (issued_token (jwtKey svc) user)) = Some (issued_token (jwtKey svc) user)"
  shows "generateAndSendToken lib svc user = Inr (encode lib (issued_token (jwtKey svc) user)) \<and>
         validateToken lib (jwtKey svc) (encode lib (issued_token (jwtKey svc) user)) c
           = ((\<lparr>ID = ID user, Username = Username user, Password = []\<rparr>, True), c)"
proof
  show "generateAndSendToken lib svc user = Inr (encode lib (issued_token (jwtKey svc) user))"
    by (simp add: generateAndSendToken_def Let_def SignedString_issued)
  have "claim (issue_claims user) ''user_id'' = Some (JNumber (float64_of_int (ID user)))"
       "claim (issue_claims user) ''username'' = Some (JString (Username user))"
    by (simp_all add: claim_def issue_claims_def)
  then show "validateToken lib (jwtKey svc) (encode lib (issued_token (jwtKey svc) user)) c
           = ((\<lparr>ID = ID user, Username = Username user, Password = []\<rparr>, True), c)"
    using jwt_Parse_issued [OF assms(4)] int_of_float64_of_int [OF assms(1,2)]
    by (simp add: validateToken_def issued_token_def)
qed

theorem token_round_trip_witness:
  "int_range (ID sample_user) \<and> float64_exact (ID sample_user) \<and> Username sample_user \<noteq> [] \<and>
   generateAndSendToken (sample_package (issued_token ''secret'' sample_user)) sample_service sample_user
     = Inr ''header.claims.tag'' \<and>
   validateToken (sample_package (issued_token ''secret'' sample_user)) ''secret''
       ''header.claims.tag'' sample_context
     = ((\<lparr>ID = 7, Username = ''alice'', Password = []\<rparr>, True), sample_context)"
proof -
  have r: "int_range (ID sample_user)"
    by (simp add: int_range_def sample_user_def)
  have e: "float64_exact (ID sample_user)"
    by (simp add: sample_user_def) code_simp
  have u: "Username sample_user \<noteq> []"
    by (simp add: sample_user_def)
  have d: "decode (sample_package (issued_token ''secret'' sample_user))
             (encode (sample_package (issued_token ''secret'' sample_user))
                (issued_token (jwtKey sample_service) sample_user))
           = Some (issued_token (jwtKey sample_service) sample_user)"
    by (simp add: sample_package_def sample_service_def)
  show ?thesis
    using token_round_trip [OF r e u d, of sample_context] r e u
    by (simp add: sample_package_def sample_service_def sample_user_def)
qed

text \<open>
  C8 (Lossless numeric claim conversion). The claim: a \<open>user_id\<close> that is not exactly
  an integer id is rejected. The code converts with \<open>int(userID)\<close> and checks nothing:
  a token signed with the server's key whose \<open>user_id\<close> is 1.5 is accepted as user 1.
\<close>

theorem validateToken_accepts_fraction:
  "validateToken (sample_package (numbered_token (Float64 3 (- 1)))) ''secret''
       ''header.claims.tag'' sample_context
     = ((\<lparr>ID = 1, Username = ''alice'', Password = []\<rparr>, True), sample_context) \<and>
   \<not> is_integral (Float64 3 (- 1))"
  by (simp add: validateToken_def jwt_Parse_def sample_package_def numbered_token_def
      GetSigningMethod_def keyFunc_def MapClaims_Valid_def numeric_date_def claim_def
      Method_Verify_def SigningString_def int_of_float64_def truncate_float64_def
      int_range_def is_integral_def)

text \<open>
  C8 as amended. For every token that \<open>jwt.Parse\<close> accepts and whose \<open>user_id\<close> is a
  number \<open>f\<close> and whose \<open>username\<close> is a string, validation succeeds and the id is
  \<open>f\<close> with its fraction discarded, provided that integer fits an int. No exactness is
  checked.
\<close>

theorem validateToken_truncates:
  assumes "jwt_Parse lib tokenString (keyFunc key) = Inr token"
    and "claim (Claims token) ''user_id'' = Some (JNumber f)"
    and "claim (Claims token) ''username'' = Some (JString name)"
    and "int_range (truncate_float64 f)"
  shows "validateToken lib key tokenString c
           = ((\<lparr>ID = truncate_float64 f, Username = name, Password = []\<rparr>, True), c)"
proof -
  have "Valid token"
    using assms(1) by (auto simp: jwt_Parse_def split: option.splits sum.splits if_splits)
  then show ?thesis
    using assms by (simp add: validateToken_def int_of_float64_def)
qed

theorem validateToken_truncates_witness:
  "validateToken (sample_package (numbered_token (Float64 (- 7) (- 1)))) ''secret''
       ''header.claims.tag'' sample_context
     = ((\<lparr>ID = - 3, Username = ''alice'', Password = []\<rparr>, True), sample_context)"
proof -
  have p: "jwt_Parse (sample_package (numbered_token (Float64 (- 7) (- 1)))) ''header.claims.tag''
             (keyFunc ''secret'') = Inr ((numbered_token (Float64 (- 7) (- 1)))\<lparr>Valid := True\<rparr>)"
    by (simp add: jwt_Parse_def sample_package_def numbered_token_def GetSigningMethod_def
        keyFunc_def MapClaims_Valid_def numeric_date_def claim_def Method_Verify_def
        SigningString_def)
  have t: "truncate_float64 (Float64 (- 7) (- 1)) = - 3"
    by (simp add: truncate_float64_def)
  have c1: "claim (Claims ((numbered_token (Float64 (- 7) (- 1)))\<lparr>Valid := True\<rparr>)) ''user_id''
              = Some (JNumber (Float64 (- 7) (- 1)))"
    by (simp add: claim_def numbered_token_def)
  have c2: "claim (Claims ((numbered_token (Float64 (- 7) (- 1)))\<lparr>Valid := True\<rparr>)) ''username''
              = Some (JString ''alice'')"
    by (simp add: claim_def numbered_token_def)
  have r: "int_range (truncate_float64 (Float64 (- 7) (- 1)))"
    by (simp add: t int_range_def)
  show ?thesis
    using validateToken_truncates [OF p c1 c2 r, of sample_context] by (simp add: t)
qed

subsection \<open>The path check of GetPicture\<close>

lemma Clean_sibling: "Clean ''images/../images2/secret.png'' = ''images2/secret.png''"
  by (simp add: Clean_def clean_element_def)

lemma Clean_parent: "Clean ''images/../../etc/passwd'' = ''../etc/passwd''"
  by (simp add: Clean_def clean_element_def)

lemma GetPicture_rejects_parent:
  "GetPicture \<lparr>anniversaryDay = a, valentineDay = vd, valentineMonth = vm\<rparr> \<lparr>basePath = ''images''\<rparr>
      \<lparr>Day = a, Month = m\<rparr> fs
      (sample_context\<lparr>query := [(''name'', ''../../etc/passwd'')]\<rparr>)
   = Returns (JSON 400 [(''error'', ''invalid file path'')]
       (sample_context\<lparr>query := [(''name'', ''../../etc/passwd'')]\<rparr>))"
  by (simp add: GetPicture_def Query_def sample_context_def Clean_parent
      and_then_def ErrorHandler_def)

text \<open>
  C9 (Path-traversal rejection). The claim: a \<open>name\<close> whose join with the base directory
  lies outside that directory is answered with 400 and no file bytes. The handler tests
  \<open>strings.HasPrefix(filePath, svc.basePath)\<close>, a test on text: with the base
  \<open>images\<close>, the name \<open>../images2/secret.png\<close> joins to \<open>images2/secret.png\<close>, which
  is outside \<open>images\<close> and still starts with its name. On an allowed day the handler
  serves that file. (A name that leaves through another directory is rejected: lemma
  \<open>GetPicture_rejects_parent\<close>.)
\<close>

theorem GetPicture_serves_sibling_directory:
  "GetPicture \<lparr>anniversaryDay = a, valentineDay = vd, valentineMonth = vm\<rparr> \<lparr>basePath = ''images''\<rparr>
      \<lparr>Day = a, Month = m\<rparr>
      (\<lambda>p. if p = ''images2/secret.png'' then Some bytes else None)
      (sample_context\<lparr>query := [(''name'', ''../images2/secret.png'')]\<rparr>)
   = Returns (sample_context\<lparr>query := [(''name'', ''../images2/secret.png'')],
                responses := [FileResponse ''images2/secret.png'' bytes]\<rparr>) \<and>
   \<not> inside_directory ''images'' (filepath_Join [''images'', ''../images2/secret.png''])"
  by (simp add: GetPicture_def Let_def Query_def sample_context_def Clean_sibling inside_directory_def)

subsection \<open>Registration and its key\<close>

lemma statement_tables:
  "statement s = (b, s') \<Longrightarrow> users s' = users s \<and> keys s' = keys s"
  by (auto simp add: statement_def split: list.splits)

lemma GetUser_tables:
  "GetUser n s = (r, s') \<Longrightarrow> users s' = users s \<and> keys s' = keys s"
  by (auto simp add: GetUser_def split: prod.splits list.splits if_splits dest: statement_tables)

lemma ContainsKey_tables:
  "ContainsKey k s = (r, s') \<Longrightarrow> users s' = users s \<and> keys s' = keys s"
  by (auto simp add: ContainsKey_def split: prod.splits if_splits dest: statement_tables)

lemma insert_user_tables:
  "insert_user n p s = (err, s') \<Longrightarrow>
     keys s' = keys s \<and>
     users s' = (if err = None then users s @ [\<lparr>ID = next_rowid (users s), Username = n, Password = p\<rparr>]
                 else users s)"
  by (auto simp add: insert_user_def split: prod.splits if_splits dest: statement_tables)

lemma CreateUser_tables:
  "CreateUser n p s = ((u, err), s') \<Longrightarrow>
     keys s' = keys s \<and> (users s' = users s \<or> length (users s') = Suc (length (users s))) \<and>
     (err = None \<longrightarrow> length (users s') = Suc (length (users s)))"
  by (auto simp add: CreateUser_def split: prod.splits if_splits
      dest!: insert_user_tables GetUser_tables)

lemma DeleteKey_tables:
  "DeleteKey k s = (err, s') \<Longrightarrow>
     users s' = users s \<and>
     keys s' = (if err = None then filter (\<lambda>x. x \<noteq> k) (keys s) else keys s)"
  by (auto simp add: DeleteKey_def split: prod.splits if_splits dest: statement_tables)

lemma Hash_server_config:
  "Hash f server_config (Inr salt) pw =
     Returns (encoded_hash argon2_Version 65536 1 4 salt (f pw salt 1 65536 4 32), None)"
  by (simp add: Hash_def IDKey_def server_config_def and_then_def)

lemma ToLower_Alice: "ToLower mapped ''Alice'' = ''alice''" "ToLower mapped ''bob'' = ''bob''"
  by (simp_all add: ToLower_def char_of_def bit_0 bit_Suc)

text \<open>
  C10 (key consumed only after account creation). Whatever the request, the entropy and
  the failures of the database: a registration that adds no user row leaves the keys
  table as it was; and when the keys table changes, the run went through every step
  before the deletion without a failure: the request was bound, \<open>ContainsKey\<close> found
  the key, \<open>GetUser\<close> returned an error (which the handler takes for an absent
  user), \<open>Hash\<close> returned a hash, \<open>CreateUser\<close>,
  called on the database these steps left, returned a user and no error, and
  \<open>DeleteKey\<close>, called on the database \<open>CreateUser\<close> left, removed the request's key.
  Each database in the chain is the one the step before it returned, so a run in
  which any step up to \<open>CreateUser\<close> fails (the INSERT, or the reading back of the
  row) leaves the keys as they were.
\<close>

theorem Register_deletes_key_only_after_create:
  assumes "Register f lib mapped svc rnd bound c db = (r, db')"
  shows "(users db' = users db \<longrightarrow> keys db' = keys db) \<and>
         (keys db' \<noteq> keys db \<longrightarrow>
            (\<exists>req db1 existing e db2 hash u db3.
               bound = Some req \<and>
               ContainsKey (Key req) db = ((True, None), db1) \<and>
               GetUser (ToLower mapped (Req_Username req)) db1 = ((existing, Some e), db2) \<and>
               Hash f (argon svc) rnd (Req_Password req) = Returns (hash, None) \<and>
               CreateUser (ToLower mapped (Req_Username req)) hash db2 = ((Some u, None), db3) \<and>
               DeleteKey (Key req) db3 = (None, db') \<and>
               keys db' = filter (\<lambda>k. k \<noteq> Key req) (keys db)))"
proof (cases bound)
  case None
  with assms show ?thesis by (simp add: Register_def)
next
  case (Some req)
  obtain found e1 db1 where ck: "ContainsKey (Key req) db = ((found, e1), db1)"
    by (metis surj_pair)
  note t1 = ContainsKey_tables [OF ck]
  obtain ex e2 db2 where gu: "GetUser (ToLower mapped (Req_Username req)) db1 = ((ex, e2), db2)"
    by (metis surj_pair)
  note t2 = GetUser_tables [OF gu]
  show ?thesis
  proof (cases "e1 \<noteq> None \<or> \<not> found \<or> e2 = None")
    case True
    with assms Some ck gu t1 t2 show ?thesis
      by (auto simp add: Register_def Let_def split: if_splits)
  next
    case False
    then obtain e where first: "e1 = None" "found" "e2 = Some e"
      by auto
    show ?thesis
    proof (cases "Hash f (argon svc) rnd (Req_Password req)")
      case (Panics p)
      with assms Some ck gu t1 t2 False show ?thesis
        by (auto simp add: Register_def Let_def split: if_splits)
    next
      case (Returns hr)
      obtain hash e3 where hr: "hr = (hash, e3)" by (metis surj_pair)
      obtain created e4 db3 where cu: "CreateUser (ToLower mapped (Req_Username req)) hash db2 = ((created, e4), db3)"
        by (metis surj_pair)
      note t3 = CreateUser_tables [OF cu]
      obtain e5 db4 where dk: "DeleteKey (Key req) db3 = (e5, db4)"
        by (metis surj_pair)
      note t4 = DeleteKey_tables [OF dk]
      have created: "e4 = None \<Longrightarrow> \<exists>u. created = Some u"
        using cu by (auto simp add: CreateUser_def split: prod.splits if_splits)
      show ?thesis
      proof (cases "e3 \<noteq> None \<or> e4 \<noteq> None")
        case True
        with assms Some ck gu t1 t2 False Returns hr cu t3 show ?thesis
          by (auto simp add: Register_def Let_def split: if_splits)
      next
        case ok: False
        then obtain u where u: "created = Some u" using created by auto
        have db': "db' = db4"
          using assms Some ck gu False Returns hr cu dk ok u
          by (auto simp add: Register_def Let_def split: if_splits)
        have grow: "length (users db') = Suc (length (users db))"
          using t1 t2 t3 t4 ok db' by simp
        have same: "keys db3 = keys db"
          using t1 t2 t3 by simp
        have deleted: "keys db' \<noteq> keys db \<Longrightarrow>
            e5 = None \<and> keys db' = filter (\<lambda>k. k \<noteq> Key req) (keys db)"
          using t4 same db' by (auto split: if_splits)
        have chain: "ContainsKey (Key req) db = ((True, None), db1)"
            "GetUser (ToLower mapped (Req_Username req)) db1 = ((ex, Some e), db2)"
            "Hash f (argon svc) rnd (Req_Password req) = Returns (hash, None)"
            "CreateUser (ToLower mapped (Req_Username req)) hash db2 = ((Some u, None), db3)"
          using ck gu first Returns hr cu u ok by simp_all
        have "keys db' \<noteq> keys db \<Longrightarrow> DeleteKey (Key req) db3 = (None, db')"
          using deleted dk db' by simp
        with chain deleted Some have second: "keys db' \<noteq> keys db \<longrightarrow>
            (\<exists>req db1 existing e db2 hash u db3.
               bound = Some req \<and>
               ContainsKey (Key req) db = ((True, None), db1) \<and>
               GetUser (ToLower mapped (Req_Username req)) db1 = ((existing, Some e), db2) \<and>
               Hash f (argon svc) rnd (Req_Password req) = Returns (hash, None) \<and>
               CreateUser (ToLower mapped (Req_Username req)) hash db2 = ((Some u, None), db3) \<and>
               DeleteKey (Key req) db3 = (None, db') \<and>
               keys db' = filter (\<lambda>k. k \<noteq> Key req) (keys db))"
          by blast
        have "users db' \<noteq> users db"
          using grow by (metis Suc_n_not_n)
        with second show ?thesis by blast
      qed
    qed
  qed
qed

text \<open>
  Two runs on a database with the one key \<open>k1\<close>. In the first the INSERT fails: no
  user row is written. In the second the INSERT succeeds and the reading back of the
  row fails, so \<open>CreateUser\<close> returns an error after the row is written. The key is
  still there after both.
\<close>

theorem Register_deletes_key_only_after_create_witness:
  "users (snd (Register sample_kdf (sample_package (issued_token ''secret'' sample_user))
                 sample_mapping sample_service (entropy alice_attempt) (body alice_attempt)
                 sample_context (one_key_db\<lparr>faults := [False, False, True]\<rparr>))) = [] \<and>
   keys (snd (Register sample_kdf (sample_package (issued_token ''secret'' sample_user))
                 sample_mapping sample_service (entropy alice_attempt) (body alice_attempt)
                 sample_context (one_key_db\<lparr>faults := [False, False, True]\<rparr>))) = [''k1''] \<and>
   map Username (users (snd (Register sample_kdf (sample_package (issued_token ''secret'' sample_user))
                 sample_mapping sample_service (entropy alice_attempt) (body alice_attempt)
                 sample_context (one_key_db\<lparr>faults := [False, False, False, True]\<rparr>)))) = [''alice''] \<and>
   keys (snd (Register sample_kdf (sample_package (issued_token ''secret'' sample_user))
                 sample_mapping sample_service (entropy alice_attempt) (body alice_attempt)
                 sample_context (one_key_db\<lparr>faults := [False, False, False, True]\<rparr>))) = [''k1'']"
proof -
  let ?lib = "sample_package (issued_token ''secret'' sample_user)"
  let ?d1 = "one_key_db\<lparr>faults := [False, False, True]\<rparr>"
  let ?d2 = "one_key_db\<lparr>faults := [False, False, False, True]\<rparr>"
  let ?R1 = "Register sample_kdf ?lib sample_mapping sample_service (entropy alice_attempt)
               (body alice_attempt) sample_context ?d1"
  let ?R2 = "Register sample_kdf ?lib sample_mapping sample_service (entropy alice_attempt)
               (body alice_attempt) sample_context ?d2"
  note run = Register_def alice_attempt_def one_key_db_def ContainsKey_def statement_def
    GetUser_def ToLower_Alice sample_service_def Hash_server_config CreateUser_def
    insert_user_def next_rowid_def report_def and_then_def ErrorHandler_def
  have u1: "users (snd ?R1) = users ?d1"
    by (simp add: run)
  have "?R1 = (fst ?R1, snd ?R1)" by simp
  from Register_deletes_key_only_after_create [OF this] u1
  have k1: "keys (snd ?R1) = keys ?d1" by blast
  have u2: "map Username (users (snd ?R2)) = [''alice'']"
    by (simp add: run)
  have c1: "ContainsKey ''k1'' ?d2 = ((True, None), db1) \<Longrightarrow>
        db1 = one_key_db\<lparr>faults := [False, False, True]\<rparr>" for db1
    by (auto simp add: ContainsKey_def statement_def one_key_db_def)
  have c2: "GetUser ''alice'' (one_key_db\<lparr>faults := [False, False, True]\<rparr>) = ((x, Some e), db2)
        \<Longrightarrow> db2 = one_key_db\<lparr>faults := [False, True]\<rparr>" for x e db2
    by (auto simp add: GetUser_def statement_def one_key_db_def)
  have c3: "CreateUser ''alice'' h (one_key_db\<lparr>faults := [False, True]\<rparr>) \<noteq> ((Some u, None), db3)"
    for h u db3
    by (simp add: CreateUser_def insert_user_def GetUser_def statement_def one_key_db_def)
  have no_chain: "\<not> (\<exists>req db1 existing e db2 hash u db3.
               body alice_attempt = Some req \<and>
               ContainsKey (Key req) ?d2 = ((True, None), db1) \<and>
               GetUser (ToLower sample_mapping (Req_Username req)) db1 = ((existing, Some e), db2) \<and>
               Hash sample_kdf (argon sample_service) (entropy alice_attempt) (Req_Password req)
                 = Returns (hash, None) \<and>
               CreateUser (ToLower sample_mapping (Req_Username req)) hash db2 = ((Some u, None), db3) \<and>
               DeleteKey (Key req) db3 = (None, snd ?R2) \<and>
               keys (snd ?R2) = filter (\<lambda>k. k \<noteq> Key req) (keys ?d2))"
  proof
    assume "\<exists>req db1 existing e db2 hash u db3.
               body alice_attempt = Some req \<and>
               ContainsKey (Key req) ?d2 = ((True, None), db1) \<and>
               GetUser (ToLower sample_mapping (Req_Username req)) db1 = ((existing, Some e), db2) \<and>
               Hash sample_kdf (argon sample_service) (entropy alice_attempt) (Req_Password req)
                 = Returns (hash, None) \<and>
               CreateUser (ToLower sample_mapping (Req_Username req)) hash db2 = ((Some u, None), db3) \<and>
               DeleteKey (Key req) db3 = (None, snd ?R2) \<and>
               keys (snd ?R2) = filter (\<lambda>k. k \<noteq> Key req) (keys ?d2)"
    then obtain req db1 existing e db2 hash u db3 where
      r: "body alice_attempt = Some req" and
      a: "ContainsKey (Key req) ?d2 = ((True, None), db1)" and
      b: "GetUser (ToLower sample_mapping (Req_Username req)) db1 = ((existing, Some e), db2)" and
      d: "CreateUser (ToLower sample_mapping (Req_Username req)) hash db2 = ((Some u, None), db3)"
      by blast
    from r have req: "Key req = ''k1''" "Req_Username req = ''Alice''"
      by (auto simp add: alice_attempt_def)
    from a req have "db1 = one_key_db\<lparr>faults := [False, False, True]\<rparr>"
      using c1 by simp
    with b req have "db2 = one_key_db\<lparr>faults := [False, True]\<rparr>"
      using c2 by (simp add: ToLower_Alice)
    with d req show False
      using c3 by (simp add: ToLower_Alice)
  qed
  have "?R2 = (fst ?R2, snd ?R2)" by simp
  from Register_deletes_key_only_after_create [OF this] no_chain
  have k2: "keys (snd ?R2) = keys ?d2" by blast
  from u1 k1 u2 k2 show ?thesis by (simp add: one_key_db_def)
qed

text \<open>Running one registration statement by statement, undisturbed, is \<open>Register\<close>.\<close>

lemma Register_by_steps:
  "interleave f lib mapped svc a b [False, False, False, False, False] (Start, sb, db) =
     (Finished (fst (Register f lib mapped svc (entropy a) (body a) (ctx a) db)), sb,
      snd (Register f lib mapped svc (entropy a) (body a) (ctx a) db))"
proof (cases "body a")
  case None
  then show ?thesis by (simp add: Register_step_def Register_def)
next
  case (Some req)
  obtain found e1 db1 where ck: "ContainsKey (Key req) db = ((found, e1), db1)"
    by (metis surj_pair)
  obtain ex e2 db2 where gu: "GetUser (ToLower mapped (Req_Username req)) db1 = ((ex, e2), db2)"
    by (metis surj_pair)
  show ?thesis
  proof (cases "Hash f (argon svc) (entropy a) (Req_Password req)")
    case (Panics p)
    with Some ck gu show ?thesis
      by (simp add: Register_step_def Register_def)
  next
    case (Returns hr)
    obtain hash e3 where hr: "hr = (hash, e3)" by (metis surj_pair)
    obtain e4 db3 where iu: "insert_user (ToLower mapped (Req_Username req)) hash db2 = (e4, db3)"
      by (metis surj_pair)
    obtain u e5 db4 where gu2: "GetUser (ToLower mapped (Req_Username req)) db3 = ((u, e5), db4)"
      by (metis surj_pair)
    obtain e6 db5 where dk: "DeleteKey (Key req) db4 = (e6, db5)"
      by (metis surj_pair)
    from Some ck gu Returns hr iu gu2 dk show ?thesis
      by (simp add: Register_step_def Register_def CreateUser_def)
  qed
qed

text \<open>
  C3 (Registration-key single use). The claim: of two concurrent registrations that
  present the same key, exactly one succeeds and the other fails with the invalid-key
  error. The handler checks the key with one statement and deletes it with another,
  after the user row is written. When the statements of two registrations with the one
  key \<open>k1\<close> alternate, both pass the check before either deletes the key: both answer
  200 with a token, and two accounts exist. (One after the other, the second is
  answered 401: lemma \<open>successive_registrations_share_no_key\<close>.)
\<close>

theorem concurrent_registrations_share_a_key:
  "(case interleave f lib mapped sample_service alice_attempt bob_attempt
           [False, True, False, True, False, True, False, True, False, True]
           (Start, Start, one_key_db) of
      (sa, sb, db) \<Rightarrow>
        status_of sa = Some 200 \<and> status_of sb = Some 200 \<and>
        map Username (users db) = [''alice'', ''bob''] \<and> keys db = [])"
  by (simp add: Register_step_def alice_attempt_def bob_attempt_def one_key_db_def
      ContainsKey_def statement_def GetUser_def ToLower_Alice sample_service_def
      Hash_server_config insert_user_def DeleteKey_def next_rowid_def issue_def Let_def
      jwt_New_def SignedString_def GetSigningMethod_def Method_Sign_def status_of_def JSON_def
      sample_context_def)

lemma successive_registrations_share_no_key:
  "(case interleave f lib mapped sample_service alice_attempt bob_attempt
           [False, False, False, False, False, True, True, True, True, True]
           (Start, Start, one_key_db) of
      (sa, sb, db) \<Rightarrow>
        status_of sa = Some 200 \<and> status_of sb = Some 401 \<and>
        map Username (users db) = [''alice''] \<and> keys db = [])"
  by (simp add: Register_step_def alice_attempt_def bob_attempt_def one_key_db_def
      ContainsKey_def statement_def GetUser_def ToLower_Alice sample_service_def
      Hash_server_config insert_user_def DeleteKey_def next_rowid_def issue_def Let_def
      jwt_New_def SignedString_def GetSigningMethod_def Method_Sign_def status_of_def JSON_def
      sample_context_def)

subsection \<open>Password hashes\<close>

text \<open>Decimal text is read back as the number it was written from.\<close>

lemma is_digit_digit_char: "d < 10 \<Longrightarrow> is_digit (digit_char d)"
  by (simp add: is_digit_def digit_char_def)

lemma digit_char_value: "d < 10 \<Longrightarrow> (of_char (digit_char d) :: nat) - 48 = d"
  by (simp add: digit_char_def)

lemma decimal_digits: "c \<in> set (decimal n) \<Longrightarrow> is_digit c"
proof (induction n rule: decimal.induct)
  case (1 n)
  show ?case
  proof (cases "n < 10")
    case True
    with "1.prems" show ?thesis
      by (simp add: decimal.simps [of n] is_digit_digit_char)
  next
    case False
    with "1.prems" "1.IH" show ?thesis
      by (auto simp add: decimal.simps [of n] is_digit_digit_char)
  qed
qed

lemma decimal_nonempty: "decimal n \<noteq> []"
  by (simp add: decimal.simps [of n])

lemma digits_value_snoc:
  "digits_value (tok @ [c]) = 10 * digits_value tok + (of_char c - 48)"
  by (simp add: digits_value_def)

lemma digits_value_decimal: "digits_value (decimal n) = n"
proof (induction n rule: decimal.induct)
  case (1 n)
  show ?case
  proof (cases "n < 10")
    case True
    then show ?thesis
      by (simp add: decimal.simps [of n] digits_value_def digit_char_value)
  next
    case False
    with "1.IH" show ?thesis
      by (simp add: decimal.simps [of n] digits_value_snoc digit_char_value)
  qed
qed

lemma is_digit_not_separator:
  "is_digit c \<Longrightarrow> c \<noteq> CHR ''$'' \<and> c \<noteq> CHR '','' \<and> c \<noteq> CHR ''+'' \<and> c \<noteq> CHR ''-'' \<and> c \<noteq> CHR 0x0A"
  by (auto simp add: is_digit_def)

lemma space_width_digit: "is_digit c \<Longrightarrow> space_width (c # cs) = 0"
  by (auto simp add: space_width_def is_digit_def Let_def)

lemma SkipSpace_digit: "is_digit c \<Longrightarrow> SkipSpace (c # cs) = Inr (c # cs)"
  by (simp add: SkipSpace_def space_width_digit is_digit_not_separator)

lemma takeWhile_digits:
  assumes "rest = [] \<or> \<not> is_digit (hd rest)"
  shows "takeWhile is_digit (decimal n @ rest) = decimal n"
    and "dropWhile is_digit (decimal n @ rest) = rest"
proof -
  have r: "takeWhile is_digit rest = []" "dropWhile is_digit rest = rest"
    using assms by (cases rest; auto)+
  show "takeWhile is_digit (decimal n @ rest) = decimal n"
    by (simp add: takeWhile_append2 decimal_digits r)
  show "dropWhile is_digit (decimal n @ rest) = rest"
    by (simp add: dropWhile_append2 decimal_digits r)
qed

lemma decimal_hd: "\<exists>c cs. decimal n = c # cs \<and> is_digit c"
  using decimal_nonempty [of n] decimal_digits [of _ n] by (cases "decimal n") auto

lemma scanNumber_decimal:
  assumes "rest = [] \<or> \<not> is_digit (hd rest)"
  shows "scanNumber (decimal n @ rest) = Inr (decimal n, rest)"
proof -
  obtain c cs where d: "decimal n = c # cs" "is_digit c" using decimal_hd by blast
  have "scanNumber (decimal n @ rest) = Inr (takeWhile is_digit (decimal n @ rest), dropWhile is_digit (decimal n @ rest))"
    using d by (simp add: scanNumber_def)
  then show ?thesis by (simp add: takeWhile_digits [OF assms])
qed

lemma SkipSpace_decimal: "SkipSpace (decimal n @ rest) = Inr (decimal n @ rest)"
proof -
  obtain c cs where d: "decimal n = c # cs" "is_digit c" using decimal_hd by blast
  then show ?thesis by (simp add: SkipSpace_digit)
qed

lemma decimal_append_nonempty: "decimal n @ rest \<noteq> []"
  by (simp add: decimal_nonempty)

lemma hd_decimal_append: "is_digit (hd (decimal n @ rest))"
  using decimal_hd [of n] by auto

lemma scanUint_decimal:
  assumes "rest = [] \<or> \<not> is_digit (hd rest)" and "n < 2 ^ bitSize"
  shows "scanUint bitSize (decimal n @ rest) = Inr (n, rest)"
  using assms(2)
  by (simp add: scanUint_def SkipSpace_decimal decimal_append_nonempty
      scanNumber_decimal [OF assms(1)] digits_value_decimal del: append_is_Nil_conv)

lemma scanInt_decimal:
  assumes "rest = [] \<or> \<not> is_digit (hd rest)" and "n < 2 ^ 63"
  shows "scanInt (decimal n @ rest) = Inr (int n, rest)"
proof -
  have h: "hd (decimal n @ rest) \<noteq> CHR ''+''" "hd (decimal n @ rest) \<noteq> CHR ''-''"
    using hd_decimal_append [of n rest] is_digit_not_separator by blast+
  have r: "int_range (int n)"
    using assms(2) by (simp add: int_range_def)
  show ?thesis
    using r h
    by (simp add: scanInt_def SkipSpace_decimal decimal_append_nonempty Let_def
        scanNumber_decimal [OF assms(1)] digits_value_decimal del: append_is_Nil_conv)
qed

lemma literal_prefix: "literal lit (lit @ rest) = Inr rest"
  by (induction lit) simp_all

lemma Sscanf_version_decimal:
  assumes "v < 2 ^ 63"
  shows "Sscanf_version (''v='' @ decimal v) = Inr (int v)"
proof -
  have 1: "literal ''v='' (''v='' @ decimal v) = Inr (decimal v)"
    by (rule literal_prefix)
  have 2: "scanInt (decimal v) = Inr (int v, [])"
    using scanInt_decimal [of "[]" v] assms by simp
  show ?thesis
    unfolding Sscanf_version_def by (simp only: 1 2 sum.case prod.case)
qed

lemma unat_32: "unat (w :: 32 word) < 2 ^ 32"
  using unsigned_less [of w, where ?'a = nat] by simp

lemma unat_8: "unat (w :: 8 word) < 2 ^ 8"
  using unsigned_less [of w, where ?'a = nat] by simp

lemma Sscanf_params_decimal:
  "Sscanf_params (''m='' @ decimal (unat m) @ '',t='' @ decimal (unat t) @ '',p='' @ decimal (unat p))
     = Inr (m, t, p)"
proof -
  have 1: "literal ''m='' (''m='' @ decimal (unat m) @ '',t='' @ decimal (unat t) @ '',p='' @ decimal (unat p))
        = Inr (decimal (unat m) @ '',t='' @ decimal (unat t) @ '',p='' @ decimal (unat p))"
    by (rule literal_prefix)
  have 2: "scanUint 32 (decimal (unat m) @ '',t='' @ decimal (unat t) @ '',p='' @ decimal (unat p))
        = Inr (unat m, '',t='' @ decimal (unat t) @ '',p='' @ decimal (unat p))"
    by (rule scanUint_decimal [OF _ unat_32]) (simp add: is_digit_def)
  have 3: "literal '',t='' ('',t='' @ decimal (unat t) @ '',p='' @ decimal (unat p))
        = Inr (decimal (unat t) @ '',p='' @ decimal (unat p))"
    by (rule literal_prefix)
  have 4: "scanUint 32 (decimal (unat t) @ '',p='' @ decimal (unat p))
        = Inr (unat t, '',p='' @ decimal (unat p))"
    by (rule scanUint_decimal [OF _ unat_32]) (simp add: is_digit_def)
  have 5: "literal '',p='' ('',p='' @ decimal (unat p)) = Inr (decimal (unat p))"
    by (rule literal_prefix)
  have 6: "scanUint 8 (decimal (unat p)) = Inr (unat p, [])"
    using scanUint_decimal [OF _ unat_8, of "[]" p] by simp
  show ?thesis
    unfolding Sscanf_params_def by (simp only: 1 2 3 4 5 6 sum.case prod.case) simp
qed

text \<open>Decoding inverts encoding, and the encoded length gives back the number of bytes.\<close>

lemma index_of_nth: "distinct xs \<Longrightarrow> n < length xs \<Longrightarrow> index_of (xs ! n) xs = Some n"
proof (induction xs arbitrary: n)
  case Nil
  then show ?case by simp
next
  case (Cons x xs)
  show ?case
  proof (cases n)
    case 0
    then show ?thesis by simp
  next
    case (Suc k)
    with Cons.prems have "xs ! k \<noteq> x" "index_of (xs ! k) xs = Some k"
      using Cons.IH [of k] by auto
    with Suc show ?thesis by simp
  qed
qed

lemma distinct_encodeStd: "distinct encodeStd"
  by (simp add: encodeStd_def)

lemma length_encodeStd: "length encodeStd = 64"
  by (simp add: encodeStd_def)

lemma decodeMap_sextet_char: "n < 64 \<Longrightarrow> decodeMap (sextet_char n) = Some n"
  by (simp add: decodeMap_def sextet_char_def index_of_nth distinct_encodeStd length_encodeStd)

lemma sextet_char_in_alphabet: "n < 64 \<Longrightarrow> sextet_char n \<in> set encodeStd"
  by (simp add: sextet_char_def length_encodeStd)

lemma alphabet_excludes:
  "CHR ''$'' \<notin> set encodeStd" "CHR 0x0D \<notin> set encodeStd" "CHR 0x0A \<notin> set encodeStd"
  by (simp_all add: encodeStd_def)

lemma sextet_char_plain:
  "n < 64 \<Longrightarrow> sextet_char n \<noteq> CHR ''$'' \<and> sextet_char n \<noteq> CHR 0x0D \<and> sextet_char n \<noteq> CHR 0x0A"
  using sextet_char_in_alphabet [of n] alphabet_excludes by metis

lemma sextets_sextet_char:
  "n < 64 \<Longrightarrow> sextets (sextet_char n # cs) = map_option ((#) n) (sextets cs)"
  by (simp add: sextet_char_plain decodeMap_sextet_char)

lemma byte_bound: "(of_char c :: nat) < 256"
  by simp

lemma m4: "(x::nat) mod 4 \<le> 3" by simp
lemma m16: "(x::nat) mod 16 \<le> 15" by simp
lemma d16: "y < 256 \<Longrightarrow> (y::nat) div 16 \<le> 15" by simp
lemma d64: "y < 256 \<Longrightarrow> (y::nat) div 64 \<le> 3" by simp
lemma sextet_bounds:
  "x < 256 \<Longrightarrow> x div 4 < (64::nat)"
  "y < 256 \<Longrightarrow> (x mod 4) * 16 + y div 16 < (64::nat)"
  "z < 256 \<Longrightarrow> (y mod 16) * 4 + z div 64 < (64::nat)"
  "z mod 64 < (64::nat)"
  "(x mod 4) * 16 < (64::nat)"
  "(y mod 16) * 4 < (64::nat)"
  using m4 [of x] m16 [of y] d16 [of y] d64 [of z] by simp_all

lemma regroup1: "y < 256 \<Longrightarrow> (x div 4) * 4 + ((x mod 4) * 16 + y div 16) div 16 = (x::nat)"
proof -
  assume "y < 256"
  then have "y div 16 < 16" by simp
  then have "((x mod 4) * 16 + y div 16) div 16 = x mod 4" by simp
  then show ?thesis by simp
qed

lemma regroup2: "z < 256 \<Longrightarrow> (((x mod 4) * 16 + y div 16) mod 16) * 16 + ((y mod 16) * 4 + z div 64) div 4 = (y::nat)" if "y < 256"
proof -
  assume "z < 256"
  then have "z div 64 < 4" by simp
  then have a: "((y mod 16) * 4 + z div 64) div 4 = y mod 16" by simp
  have "y div 16 < 16" using that by simp
  then have b: "y div 16 mod 16 = y div 16" by simp
  show ?thesis by (simp add: a b)
qed

lemma regroup3: "z < 256 \<Longrightarrow> (((y mod 16) * 4 + z div 64) mod 4) * 64 + z mod 64 = (z::nat)"
proof -
  assume "z < 256"
  then have "z div 64 < 4" by simp
  then have "((y mod 16) * 4 + z div 64) mod 4 = z div 64" by simp
  then show ?thesis by simp
qed

lemma regroup4: "(x div 4) * 4 + ((x mod 4) * 16) div 16 = (x::nat)"
  by simp

lemma regroup5: "y < 256 \<Longrightarrow> (((x mod 4) * 16 + y div 16) mod 16) * 16 + ((y mod 16) * 4) div 4 = (y::nat)"
proof -
  assume "y < 256"
  then have "y div 16 < 16" by simp
  then have b: "y div 16 mod 16 = y div 16" by simp
  show ?thesis by (simp add: b)
qed

lemma sextets_quad:
  assumes "v0 < 64" "v1 < 64" "v2 < 64" "v3 < 64"
  shows "sextets (sextet_char v0 # sextet_char v1 # sextet_char v2 # sextet_char v3 # cs)
         = map_option (\<lambda>r. v0 # v1 # v2 # v3 # r) (sextets cs)"
  using assms by (simp add: sextets_sextet_char option.map_comp comp_def del: sextets.simps)

lemma Decode_Encode: "DecodeString (EncodeToString bs) = Some bs"
proof (induction bs rule: EncodeToString.induct)
  case (1 a b c rest)
  define x y z where "x = (of_char a :: nat)" and "y = (of_char b :: nat)" and "z = (of_char c :: nat)"
  have bx: "x < 256" "y < 256" "z < 256" by (simp_all add: x_def y_def z_def)
  from "1.IH" [OF refl refl refl]
  obtain vs where vs: "sextets (EncodeToString rest) = Some vs" "decode_quanta vs = Some rest"
    by (auto simp add: DecodeString_def split: option.splits)
  have e: "EncodeToString (a # b # c # rest) =
        sextet_char (x div 4) # sextet_char ((x mod 4) * 16 + y div 16) #
        sextet_char ((y mod 16) * 4 + z div 64) # sextet_char (z mod 64) # EncodeToString rest"
    by (simp add: Let_def x_def y_def z_def)
  have s: "sextets (EncodeToString (a # b # c # rest)) =
        Some (x div 4 # ((x mod 4) * 16 + y div 16) # ((y mod 16) * 4 + z div 64) # z mod 64 # vs)"
    unfolding e using bx by (simp only: sextets_quad sextet_bounds vs option.map)
  have "decode_quanta (x div 4 # ((x mod 4) * 16 + y div 16) # ((y mod 16) * 4 + z div 64) # z mod 64 # vs)
        = Some (char_of x # char_of y # char_of z # rest)"
    using bx by (simp only: decode_quanta.simps vs option.map regroup1 regroup2 regroup3)
  then show ?case
    by (simp add: DecodeString_def s x_def y_def z_def del: EncodeToString.simps)
next
  case (2 a b)
  define x y where "x = (of_char a :: nat)" and "y = (of_char b :: nat)"
  have bx: "x < 256" "y < 256" by (simp_all add: x_def y_def)
  have e: "EncodeToString [a, b] =
        [sextet_char (x div 4), sextet_char ((x mod 4) * 16 + y div 16), sextet_char ((y mod 16) * 4)]"
    by (simp add: Let_def x_def y_def)
  have s: "sextets (EncodeToString [a, b]) = Some [x div 4, (x mod 4) * 16 + y div 16, (y mod 16) * 4]"
    unfolding e using bx by (simp add: sextets_sextet_char sextet_bounds del: sextets.simps(2))
  have "decode_quanta [x div 4, (x mod 4) * 16 + y div 16, (y mod 16) * 4] = Some [char_of x, char_of y]"
    using bx by (simp only: decode_quanta.simps regroup1 regroup5)
  then show ?case
    by (simp add: DecodeString_def s x_def y_def del: EncodeToString.simps)
next
  case (3 a)
  define x where "x = (of_char a :: nat)"
  have bx: "x < 256" by (simp add: x_def)
  have e: "EncodeToString [a] = [sextet_char (x div 4), sextet_char ((x mod 4) * 16)]"
    by (simp add: Let_def x_def)
  have s: "sextets (EncodeToString [a]) = Some [x div 4, (x mod 4) * 16]"
    unfolding e using bx by (simp add: sextets_sextet_char sextet_bounds del: sextets.simps(2))
  have "decode_quanta [x div 4, (x mod 4) * 16] = Some [char_of x]"
    by (simp only: decode_quanta.simps regroup4)
  then show ?case
    by (simp add: DecodeString_def s x_def del: EncodeToString.simps)
next
  case 4
  show ?case by (simp add: DecodeString_def)
qed

lemma length_Encode: "length (EncodeToString bs) * 3 div 4 = length bs"
proof (induction bs rule: EncodeToString.induct)
  case (1 a b c rest)
  from "1.IH" [OF refl refl refl] show ?case by (simp add: Let_def)
qed (simp_all add: Let_def)

lemma Encode_alphabet: "set (EncodeToString bs) \<subseteq> set encodeStd"
proof (induction bs rule: EncodeToString.induct)
  case (1 a b c rest)
  from "1.IH" [OF refl refl refl] show ?case
    using sextet_bounds(1) [OF byte_bound [of a]]
      sextet_bounds(2) [OF byte_bound [of b], of "of_char a"]
      sextet_bounds(3) [OF byte_bound [of c], of "of_char b"]
      sextet_bounds(4) [of "of_char c"]
    by (simp add: Let_def sextet_char_in_alphabet)
next
  case (2 a b)
  show ?case
    using sextet_bounds(1) [OF byte_bound [of a]]
      sextet_bounds(2) [OF byte_bound [of b], of "of_char a"]
      sextet_bounds(6) [of "of_char b"]
    by (simp add: Let_def sextet_char_in_alphabet)
next
  case (3 a)
  show ?case
    using sextet_bounds(1) [OF byte_bound [of a]] sextet_bounds(5) [of "of_char a"]
    by (simp add: Let_def sextet_char_in_alphabet)
next
  case 4
  show ?case by simp
qed

lemma Encode_no_dollar: "CHR ''$'' \<notin> set (EncodeToString bs)"
  using Encode_alphabet [of bs] alphabet_excludes(1) by blast

text \<open>Splitting at a separator that the pieces do not contain.\<close>

lemma Split_without: "sep \<notin> set a \<Longrightarrow> Split a sep = [a]"
  by (induction a) auto

lemma Split_append: "sep \<notin> set a \<Longrightarrow> Split (a @ sep # b) sep = a # Split b sep"
  by (induction a) (auto split: list.splits)

text \<open>\<open>Verify\<close> on the text \<open>Hash\<close> writes, with any digest field.\<close>

lemma decimal_no_dollar: "CHR ''$'' \<notin> set (decimal n)"
  using decimal_digits is_digit_not_separator by blast

lemma Split_fields:
  assumes "CHR ''$'' \<notin> set field"
  shows "Split (''$argon2id$v='' @ decimal v @ ''$m='' @ decimal (unat m) @ '',t='' @
                decimal (unat t) @ '',p='' @ decimal (unat p) @ ''$'' @ EncodeToString salt @
                ''$'' @ field) CHR ''$'' =
     [[], ''argon2id'', ''v='' @ decimal v,
      ''m='' @ decimal (unat m) @ '',t='' @ decimal (unat t) @ '',p='' @ decimal (unat p),
      EncodeToString salt, field]"
proof -
  let ?P = "''m='' @ decimal (unat m) @ '',t='' @ decimal (unat t) @ '',p='' @ decimal (unat p)"
  have e: "''$argon2id$v='' @ decimal v @ ''$m='' @ decimal (unat m) @ '',t='' @
                decimal (unat t) @ '',p='' @ decimal (unat p) @ ''$'' @ EncodeToString salt @
                ''$'' @ field =
      [] @ CHR ''$'' # (''argon2id'' @ CHR ''$'' # ((''v='' @ decimal v) @ CHR ''$'' #
        (?P @ CHR ''$'' # (EncodeToString salt @ CHR ''$'' # field))))"
    by simp
  have 1: "CHR ''$'' \<notin> set (''v='' @ decimal v)"
    by (simp add: decimal_no_dollar)
  have 2: "CHR ''$'' \<notin> set ?P"
    by (simp add: decimal_no_dollar)
  have 3: "CHR ''$'' \<notin> set ''argon2id''" "CHR ''$'' \<notin> set ([] :: string)"
    by simp_all
  show ?thesis
    unfolding e
    by (simp only: Split_append [OF 3(2)] Split_append [OF 3(1)] Split_append [OF 1]
        Split_append [OF 2] Split_append [OF Encode_no_dollar] Split_without [OF assms])
qed

lemma encoded_hash_text:
  "encoded_hash v m t p salt digest = hash_text v m t p salt (EncodeToString digest)"
  by (simp add: encoded_hash_def hash_text_def)

lemma Verify_fields:
  assumes "v < 2 ^ 63" and "CHR ''$'' \<notin> set field"
  shows "Verify f (hash_text v m t p salt field) password =
         and_then (IDKey f password salt t m p (of_nat (length field * 3 div 4)))
           (\<lambda>newHash. Returns (EncodeToString newHash = field, None))"
  unfolding Verify_def hash_text_def Split_fields [OF assms(2)]
  by (simp add: Let_def Sscanf_version_decimal [OF assms(1), simplified]
      Sscanf_params_decimal [simplified] Decode_Encode)

lemma well_formed_hash_text:
  assumes "v < 2 ^ 63" and "CHR ''$'' \<notin> set field"
  shows "well_formed_fields (hash_text v m t p salt field)"
  unfolding well_formed_fields_def hash_text_def Split_fields [OF assms(2)]
  by (simp add: Let_def Sscanf_version_decimal [OF assms(1), simplified]
      Sscanf_params_decimal [simplified] Decode_Encode)

lemma well_formed_encoded_hash:
  assumes "v < 2 ^ 63"
  shows "well_formed_fields (encoded_hash v m t p salt digest)"
  unfolding encoded_hash_text by (rule well_formed_hash_text [OF assms Encode_no_dollar])

lemma Verify_encoded_hash:
  assumes "v < 2 ^ 63"
  shows "Verify f (encoded_hash v m t p salt digest) password =
         and_then (IDKey f password salt t m p (of_nat (length digest)))
           (\<lambda>newHash. Returns (EncodeToString newHash = EncodeToString digest, None))"
  unfolding encoded_hash_text Verify_fields [OF assms Encode_no_dollar] length_Encode ..

lemma word_ge_1: "1 \<le> (w :: 'a::len word) \<Longrightarrow> w \<noteq> 0"
  by auto

lemma IDKey_returns:
  "1 \<le> t \<Longrightarrow> 1 \<le> p \<Longrightarrow> 1 \<le> k \<Longrightarrow>
   IDKey f password salt t m p k = Returns (f password salt t m p k)"
  using word_ge_1 [of t] word_ge_1 [of p] word_ge_1 [of k] by (simp add: IDKey_def)


lemma decimal_samples:
  "decimal 19 = ''19''" "decimal 8 = ''8''" "decimal 1 = ''1''" "decimal (Suc 0) = ''1''"
  by (simp_all add: decimal.simps digit_char_def char_of_def bit_0 bit_Suc)

lemmas evaluate_text = decimal_samples Let_def sextet_char_def encodeStd_def


lemma encoded_hash_sample:
  "encoded_hash 19 8 1 1 ''salt'' ''abc'' = ''$argon2id$v=19$m=8,t=1,p=1$c2FsdA$YWJj''"
  by (simp add: encoded_hash_def evaluate_text)



text \<open>
  C2 (Hash round-trip). For every password and every salt, when the configuration lets
  \<open>argon2.IDKey\<close> run (at least one pass, one thread and a key length of one byte) and
  Argon2id returns a digest of the configured length, \<open>Hash\<close> returns an encoded hash
  without error, and \<open>Verify\<close> on it with the same password returns true and no
  error.
\<close>

theorem hash_round_trip:
  assumes "1 \<le> Time config" and "1 \<le> Threads config" and "1 \<le> KeyLen config"
    and "length (f password salt (Time config) (Memory config) (Threads config) (KeyLen config))
           = unat (KeyLen config)"
  shows "\<exists>encoded. Hash f config (Inr salt) password = Returns (encoded, None) \<and>
                   Verify f encoded password = Returns (True, None)"
proof -
  let ?d = "f password salt (Time config) (Memory config) (Threads config) (KeyLen config)"
  let ?h = "encoded_hash argon2_Version (Memory config) (Time config) (Threads config) salt ?d"
  note k = IDKey_returns [OF assms(1,2,3)]
  have h: "Hash f config (Inr salt) password = Returns (?h, None)"
    by (simp add: Hash_def k and_then_def)
  have v: "argon2_Version < 2 ^ 63"
    by (simp add: argon2_Version_def)
  have l: "(of_nat (length ?d) :: 32 word) = KeyLen config"
    by (simp add: assms(4))
  have "Verify f ?h password = Returns (True, None)"
    by (simp add: Verify_encoded_hash [OF v] l k and_then_def)
  with h show ?thesis by blast
qed

theorem hash_round_trip_witness:
  "1 \<le> Time server_config \<and> 1 \<le> Threads server_config \<and> 1 \<le> KeyLen server_config \<and>
   (\<exists>encoded. Hash sample_kdf server_config (Inr ''0123456789abcdef'') ''pw1''
                 = Returns (encoded, None) \<and>
               Verify sample_kdf encoded ''pw1'' = Returns (True, None))"
proof -
  have 1: "1 \<le> Time server_config" and 2: "1 \<le> Threads server_config"
    and 3: "1 \<le> KeyLen server_config"
    by (simp_all add: server_config_def)
  have 4: "length (sample_kdf ''pw1'' ''0123456789abcdef'' (Time server_config)
             (Memory server_config) (Threads server_config) (KeyLen server_config))
           = unat (KeyLen server_config)"
    by (simp add: sample_kdf_def)
  from hash_round_trip [where f = sample_kdf and config = server_config and password = "''pw1''"
      and salt = "''0123456789abcdef''", OF 1 2 3 4] 1 2 3
  show ?thesis by blast
qed







end
